theory Spec2Isabelle
  imports Main "HOL-Library.Word"
begin

unbundle bit_operations_syntax

section \<open>Machine types\<close>

type_synonym u8 = "8 word"
type_synonym u32 = "32 word"
type_synonym u64 = "64 word"
type_synonym s32 = "32 word"

text \<open>
  Floating-point values are carried as IEEE-754 bit patterns.  No arithmetic is done
  on them; the only operation of the source that touches their value, the narrowing
  \<^verbatim>\<open>float(value)\<close> of a parsed double, is a parameter of the reader.
\<close>

type_synonym f32 = "32 word"
type_synonym f64 = "64 word"

section \<open>CRC32 name hashing\<close>

text \<open>
  Modelled from the spec: \<^verbatim>\<open>util::crc32\<close> is declared outside the translated
  sources.  The glossary fixes it as the 32-bit cyclic redundancy check with the
  reflected polynomial \<^verbatim>\<open>0xEDB88320\<close>; this is the usual byte-wise, bit-serial
  formulation with initial value and final complement \<^verbatim>\<open>0xFFFFFFFF\<close>.
\<close>

definition crc32_shift :: "u32 \<Rightarrow> u32" where
  "crc32_shift c = (if bit c 0 then drop_bit 1 c XOR 0xEDB88320 else drop_bit 1 c)"

definition crc32_update :: "u32 \<Rightarrow> char \<Rightarrow> u32" where
  "crc32_update c b =
     crc32_shift (crc32_shift (crc32_shift (crc32_shift
       (crc32_shift (crc32_shift (crc32_shift (crc32_shift (c XOR of_char b))))))))"

definition crc32 :: "string \<Rightarrow> u32" where
  "crc32 s = NOT (foldl crc32_update 0xFFFFFFFF s)"

section \<open>Formatting\<close>

text \<open>
  \<^verbatim>\<open>absl::StrFormat\<close> for the directives that the name guesser uses:
  \<^verbatim>\<open>%s\<close>, \<^verbatim>\<open>%d\<close>, an optional \<^verbatim>\<open>0\<close> flag and a decimal
  width, and \<^verbatim>\<open>%%\<close>.  A format that cannot be rendered (another directive, a
  missing or ill-typed argument) yields the empty string, as the library clears its
  output on failure.
\<close>

datatype FormatArg = ArgStr string | ArgInt int

fun digits :: "nat \<Rightarrow> string" where
  "digits n = (if n < 10 then [char_of (48 + n)]
               else digits (n div 10) @ [char_of (48 + n mod 10)])"

declare digits.simps [simp del]

definition format_d :: "bool \<Rightarrow> nat \<Rightarrow> int \<Rightarrow> string" where
  "format_d zero width i =
     (let sign = (if i < 0 then ''-'' else '''');
          ds = digits (nat \<bar>i\<bar>);
          pad = width - (length sign + length ds)
      in if zero then sign @ replicate pad (CHR ''0'') @ ds
         else replicate pad (CHR '' '') @ sign @ ds)"

definition format_s :: "nat \<Rightarrow> string \<Rightarrow> string" where
  "format_s width s = replicate (width - length s) (CHR '' '') @ s"

definition is_digit :: "char \<Rightarrow> bool" where
  "is_digit c = (48 \<le> (of_char c :: nat) \<and> (of_char c :: nat) \<le> 57)"

datatype FormatState = Literal | Directive bool nat bool

fun render :: "FormatState \<Rightarrow> string \<Rightarrow> FormatArg list \<Rightarrow> string option" where
  "render Literal [] args = Some []"
| "render Literal (c # cs) args =
     (if c = CHR ''%'' then render (Directive False 0 False) cs args
      else map_option ((#) c) (render Literal cs args))"
| "render (Directive zero width started) [] args = None"
| "render (Directive zero width started) (c # cs) args =
     (if c = CHR ''%'' \<and> \<not> zero \<and> \<not> started then
        map_option ((#) c) (render Literal cs args)
      else if c = CHR ''0'' \<and> \<not> zero \<and> \<not> started then
        render (Directive True 0 False) cs args
      else if is_digit c then
        render (Directive zero (10 * width + (of_char c - 48)) True) cs args
      else if c = CHR ''d'' then
        (case args of
           ArgInt i # rest \<Rightarrow> map_option ((@) (format_d zero width i)) (render Literal cs rest)
         | _ \<Rightarrow> None)
      else if c = CHR ''s'' \<and> \<not> zero then
        (case args of
           ArgStr s # rest \<Rightarrow> map_option ((@) (format_s width s)) (render Literal cs rest)
         | _ \<Rightarrow> None)
      else None)"

definition StrFormat :: "string \<Rightarrow> FormatArg list \<Rightarrow> string" where
  "StrFormat format args = (case render Literal format args of Some s \<Rightarrow> s | None \<Rightarrow> [])"

definition EndsWith :: "string \<Rightarrow> string \<Rightarrow> bool" where
  "EndsWith text suffix =
     (length suffix \<le> length text \<and> drop (length text - length suffix) text = suffix)"

section \<open>NameTable\<close>

text \<open>
  The two hash maps and the list of numbered-name formats.  \<^verbatim>\<open>emplace\<close> keeps
  an entry that is already present, in \<open>AddName\<close> as in \<open>AddNameReference\<close>.
  The \<^verbatim>\<open>index\<close> argument is a C++ \<^verbatim>\<open>int\<close>; it is modelled as an
  unbounded integer, so \<^verbatim>\<open>index + 1\<close> at \<^verbatim>\<open>INT_MAX\<close>, which is undefined in
  the source, is outside the model.
\<close>

record NameTable =
  names :: "u32 \<rightharpoonup> string"
  owned_names :: "u32 \<rightharpoonup> string"
  numbered_names :: "string list"

definition AddName :: "NameTable \<Rightarrow> u32 \<Rightarrow> string \<Rightarrow> string \<times> NameTable" where
  "AddName t hash name =
     (case owned_names t hash of
        Some existing \<Rightarrow> (existing, t)
      | None \<Rightarrow> (name, t\<lparr>owned_names := (owned_names t)(hash \<mapsto> name)\<rparr>))"

definition AddNameReference :: "NameTable \<Rightarrow> string \<Rightarrow> NameTable" where
  "AddNameReference t name =
     (case names t (crc32 name) of
        Some existing \<Rightarrow> t
      | None \<Rightarrow> t\<lparr>names := (names t)(crc32 name \<mapsto> name)\<rparr>)"

definition formats :: "string list" where
  "formats = [''%s%d'', ''%s_%d'', ''%s%02d'', ''%s_%02d'', ''%s%03d'', ''%s_%03d'']"

text \<open>The inner loop of \<^verbatim>\<open>test_names\<close>: the formats, for one value of \<open>i\<close>.\<close>

fun test_formats ::
  "NameTable \<Rightarrow> u32 \<Rightarrow> string \<Rightarrow> int \<Rightarrow> string list \<Rightarrow> (string \<times> NameTable) option" where
  "test_formats t hash prefix i [] = None"
| "test_formats t hash prefix i (format # rest) =
     (let candidate = StrFormat format [ArgStr prefix, ArgInt i]
      in if crc32 candidate = hash then Some (AddName t hash candidate)
         else test_formats t hash prefix i rest)"

text \<open>The outer loop of \<^verbatim>\<open>test_names\<close>: the values of \<open>i\<close>.\<close>

fun test_indices ::
  "NameTable \<Rightarrow> u32 \<Rightarrow> string \<Rightarrow> int list \<Rightarrow> (string \<times> NameTable) option" where
  "test_indices t hash prefix [] = None"
| "test_indices t hash prefix (i # rest) =
     (case test_formats t hash prefix i formats of
        Some match \<Rightarrow> Some match
      | None \<Rightarrow> test_indices t hash prefix rest)"

definition test_names ::
  "NameTable \<Rightarrow> u32 \<Rightarrow> int \<Rightarrow> string \<Rightarrow> (string \<times> NameTable) option" where
  "test_names t hash index prefix = test_indices t hash prefix [index, index + 1]"

text \<open>The loop over the plural suffixes of the parent name.\<close>

fun test_suffixes ::
  "NameTable \<Rightarrow> u32 \<Rightarrow> int \<Rightarrow> string \<Rightarrow> string list \<Rightarrow> (string \<times> NameTable) option" where
  "test_suffixes t hash index parent_name [] = None"
| "test_suffixes t hash index parent_name (suffix # rest) =
     (if \<not> EndsWith parent_name suffix then test_suffixes t hash index parent_name rest
      else
        (case test_names t hash index
                (take (length parent_name - length suffix) parent_name) of
           Some match \<Rightarrow> Some match
         | None \<Rightarrow> test_suffixes t hash index parent_name rest))"

text \<open>The last resort: every numbered name, for \<open>0 \<le> i < index + 2\<close>.\<close>

fun test_numbered_indices ::
  "NameTable \<Rightarrow> u32 \<Rightarrow> string \<Rightarrow> int list \<Rightarrow> (string \<times> NameTable) option" where
  "test_numbered_indices t hash name [] = None"
| "test_numbered_indices t hash name (i # rest) =
     (let candidate = StrFormat name [ArgInt i]
      in if crc32 candidate = hash then Some (AddName t hash candidate)
         else test_numbered_indices t hash name rest)"

fun test_numbered_names ::
  "NameTable \<Rightarrow> u32 \<Rightarrow> int \<Rightarrow> string list \<Rightarrow> (string \<times> NameTable) option" where
  "test_numbered_names t hash index [] = None"
| "test_numbered_names t hash index (name # rest) =
     (case test_numbered_indices t hash name [0..index + 1] of
        Some match \<Rightarrow> Some match
      | None \<Rightarrow> test_numbered_names t hash index rest)"

definition last_resort :: "NameTable \<Rightarrow> u32 \<Rightarrow> int \<Rightarrow> string option \<times> NameTable" where
  "last_resort t hash index =
     (case test_numbered_names t hash index (numbered_names t) of
        Some (name, t') \<Rightarrow> (Some name, t')
      | None \<Rightarrow> (None, t))"

definition GetName :: "NameTable \<Rightarrow> u32 \<Rightarrow> int \<Rightarrow> u32 \<Rightarrow> string option \<times> NameTable" where
  "GetName t hash index parent_name_hash =
     (case names t hash of
        Some name \<Rightarrow> (Some name, t)
      | None \<Rightarrow>
     (case owned_names t hash of
        Some name \<Rightarrow> (Some name, t)
      | None \<Rightarrow>
     (case names t parent_name_hash of
        Some parent_name \<Rightarrow>
          (case test_names t hash index parent_name of
             Some (name, t') \<Rightarrow> (Some name, t')
           | None \<Rightarrow>
          (case test_names t hash index ''Children'' of
             Some (name, t') \<Rightarrow> (Some name, t')
           | None \<Rightarrow>
          (case test_suffixes t hash index parent_name [''s'', ''es'', ''List''] of
             Some (name, t') \<Rightarrow> (Some name, t')
           | None \<Rightarrow> last_resort t hash index)))
      | None \<Rightarrow> last_resort t hash index)))"

section \<open>Parameters\<close>

text \<open>
  The parameter variant and the tree above it.  The numerical structs are given by their
  fields in the order of \<^verbatim>\<open>fields()\<close>; a \<^verbatim>\<open>std::array<Curve, K>\<close> is a list of
  \<open>K\<close> curves under the constructor of its size; the ordered maps are association lists
  in iteration order.  \<open>ParameterIO\<close> extends \<open>ParameterList\<close>: the base part is the field
  \<open>param_root\<close>.
\<close>

datatype Vector2f = Vector2f f32 f32
datatype Vector3f = Vector3f f32 f32 f32
datatype Vector4f = Vector4f f32 f32 f32 f32
datatype Color4f = Color4f f32 f32 f32 f32
datatype Quatf = Quatf f32 f32 f32 f32

record Curve =
  a :: u32
  b :: u32
  floats :: "f32 list"

datatype Type =
    Type_Bool | Type_F32 | Type_Int | Type_Vec2 | Type_Vec3 | Type_Vec4 | Type_Color | Type_String32 | Type_String64
  | Type_Curve1 | Type_Curve2 | Type_Curve3 | Type_Curve4 | Type_BufferInt | Type_BufferF32 | Type_String256
  | Type_Quat | Type_U32 | Type_BufferU32 | Type_BufferBinary | Type_StringRef

datatype Parameter =
    ParamBool bool
  | ParamF32 f32
  | ParamInt s32
  | ParamVec2 Vector2f
  | ParamVec3 Vector3f
  | ParamVec4 Vector4f
  | ParamColor Color4f
  | ParamString32 string
  | ParamString64 string
  | ParamCurve1 "Curve list"
  | ParamCurve2 "Curve list"
  | ParamCurve3 "Curve list"
  | ParamCurve4 "Curve list"
  | ParamBufferInt "s32 list"
  | ParamBufferF32 "f32 list"
  | ParamString256 string
  | ParamQuat Quatf
  | ParamU32 u32
  | ParamBufferU32 "u32 list"
  | ParamBufferBinary "u8 list"
  | ParamStringRef string

text \<open>
  Modelled from the spec: \<^verbatim>\<open>Parameter::Type\<close>, \<^verbatim>\<open>GetType\<close>, \<^verbatim>\<open>IsStringType\<close> and
  \<^verbatim>\<open>GetStringView\<close> are declared in \<^verbatim>\<open>oead/aamp.h\<close>, outside the translated
  sources.  The type tag is the alternative that the variant holds (sections 3.2 and 6);
  the string types are the three fixed-size strings and the plain string.
\<close>

fun GetType :: "Parameter \<Rightarrow> Type" where
  "GetType (ParamBool v) = Type_Bool"
| "GetType (ParamF32 v) = Type_F32"
| "GetType (ParamInt v) = Type_Int"
| "GetType (ParamVec2 v) = Type_Vec2"
| "GetType (ParamVec3 v) = Type_Vec3"
| "GetType (ParamVec4 v) = Type_Vec4"
| "GetType (ParamColor v) = Type_Color"
| "GetType (ParamString32 v) = Type_String32"
| "GetType (ParamString64 v) = Type_String64"
| "GetType (ParamCurve1 v) = Type_Curve1"
| "GetType (ParamCurve2 v) = Type_Curve2"
| "GetType (ParamCurve3 v) = Type_Curve3"
| "GetType (ParamCurve4 v) = Type_Curve4"
| "GetType (ParamBufferInt v) = Type_BufferInt"
| "GetType (ParamBufferF32 v) = Type_BufferF32"
| "GetType (ParamString256 v) = Type_String256"
| "GetType (ParamQuat v) = Type_Quat"
| "GetType (ParamU32 v) = Type_U32"
| "GetType (ParamBufferU32 v) = Type_BufferU32"
| "GetType (ParamBufferBinary v) = Type_BufferBinary"
| "GetType (ParamStringRef v) = Type_StringRef"

datatype ParameterObject = ParameterObject (params: "(u32 \<times> Parameter) list")

datatype ParameterList =
  ParameterList (objects: "(u32 \<times> ParameterObject) list") (lists: "(u32 \<times> ParameterList) list")

record ParameterIO =
  version :: u32
  type :: string
  param_root :: ParameterList


section \<open>The YAML reader\<close>

text \<open>
  The document as the reader walks it: a parsed tree of sequence, scalar and map nodes,
  each with its value tag (empty when there is none).  Splitting the text into nodes and
  classifying a scalar (\<^verbatim>\<open>yml::ParseScalar\<close> with \<open>RecognizeTag\<close>) are done
  outside the translated sources, so a scalar node carries the outcome of
  \<^verbatim>\<open>yml::ParseScalar\<close> for it: the \<^verbatim>\<open>yml::Scalar\<close> variant, or the error raised.
  \<^verbatim>\<open>std::get\<close> on another alternative of the variant raises
  \<^verbatim>\<open>std::bad_variant_access\<close>.
\<close>

datatype error = InvalidDataError | BadVariantAccess | RymlError

datatype Scalar =
    ScalarNull
  | ScalarBool bool
  | ScalarString string
  | ScalarU64 u64
  | ScalarF64 f64

datatype TagBasedType = TagStr | TagInt

definition RecognizeTag :: "string \<Rightarrow> TagBasedType option" where
  "RecognizeTag tag =
     (if tag \<in> {''!str32'', ''!str64'', ''!str256''} then Some TagStr
      else if tag \<in> {''!u''} then Some TagInt
      else None)"

datatype Node =
    Seq string "Node list"
  | Val string "error + Scalar"
  | Map string "(Node \<times> Node) list"

text \<open>
  The scalar parser reads the value of a scalar node.  On a sequence or a map it has no
  value to read and ryml reports an error; the properties below are stated for sequences
  of scalars.
\<close>

definition ParseScalar :: "Node \<Rightarrow> error + Scalar" where
  "ParseScalar node = (case node of Val tag r \<Rightarrow> r | _ \<Rightarrow> Inl RymlError)"

text \<open>
  Modelled from the spec: \<^verbatim>\<open>FixedSafeString<N>\<close> is declared outside the translated
  sources; its payload has at most \<open>N - 1\<close> bytes (section 3.2).
\<close>

definition FixedSafeString :: "nat \<Rightarrow> string \<Rightarrow> string" where
  "FixedSafeString N value = take (N - 1) value"

definition ScalarToValue :: "(f64 \<Rightarrow> f32) \<Rightarrow> string \<Rightarrow> Scalar \<Rightarrow> error + Parameter" where
  "ScalarToValue narrow tag scalar =
     (case scalar of
        ScalarBool v \<Rightarrow> Inr (ParamBool v)
      | ScalarString v \<Rightarrow>
          (if tag = ''!str32'' then Inr (ParamString32 (FixedSafeString 32 v))
           else if tag = ''!str64'' then Inr (ParamString64 (FixedSafeString 64 v))
           else if tag = ''!str256'' then Inr (ParamString256 (FixedSafeString 256 v))
           else Inr (ParamStringRef v))
      | ScalarU64 v \<Rightarrow>
          (if tag = ''!u'' then Inr (ParamU32 (ucast v)) else Inr (ParamInt (ucast v)))
      | ScalarF64 v \<Rightarrow> Inr (ParamF32 (narrow v))
      | ScalarNull \<Rightarrow> Inl InvalidDataError)"

text \<open>
  \<^verbatim>\<open>ParseIntOrFloat<T>\<close>: \<^verbatim>\<open>std::get<u64>\<close> for an integral \<open>T\<close>,
  \<^verbatim>\<open>std::get<f64>\<close> otherwise, then the conversion to \<open>T\<close> (a truncation for the
  integers, the narrowing \<open>narrow\<close> for \<^verbatim>\<open>float\<close>).
\<close>

definition ParseInt :: "Node \<Rightarrow> error + u64" where
  "ParseInt node =
     (case ParseScalar node of
        Inl e \<Rightarrow> Inl e
      | Inr (ScalarU64 v) \<Rightarrow> Inr v
      | Inr _ \<Rightarrow> Inl BadVariantAccess)"

definition ParseIntOrFloat_u32 :: "Node \<Rightarrow> error + u32" where
  "ParseIntOrFloat_u32 node = map_sum id ucast (ParseInt node)"

definition ParseIntOrFloat_int :: "Node \<Rightarrow> error + s32" where
  "ParseIntOrFloat_int node = map_sum id ucast (ParseInt node)"

definition ParseIntOrFloat_u8 :: "Node \<Rightarrow> error + u8" where
  "ParseIntOrFloat_u8 node = map_sum id ucast (ParseInt node)"

definition ParseIntOrFloat_f32 :: "(f64 \<Rightarrow> f32) \<Rightarrow> Node \<Rightarrow> error + f32" where
  "ParseIntOrFloat_f32 narrow node =
     (case ParseScalar node of
        Inl e \<Rightarrow> Inl e
      | Inr (ScalarF64 v) \<Rightarrow> Inr (narrow v)
      | Inr _ \<Rightarrow> Inl BadVariantAccess)"

fun parse_each :: "(Node \<Rightarrow> error + 'v) \<Rightarrow> Node list \<Rightarrow> error + 'v list" where
  "parse_each parse [] = Inr []"
| "parse_each parse (child # rest) =
     (case parse child of
        Inl e \<Rightarrow> Inl e
      | Inr v \<Rightarrow> (case parse_each parse rest of Inl e \<Rightarrow> Inl e | Inr vs \<Rightarrow> Inr (v # vs)))"

definition ReadSequenceForNumericalStruct ::
  "(f64 \<Rightarrow> f32) \<Rightarrow> nat \<Rightarrow> Node list \<Rightarrow> error + f32 list" where
  "ReadSequenceForNumericalStruct narrow num_fields children =
     (if length children \<noteq> num_fields then Inl InvalidDataError
      else parse_each (ParseIntOrFloat_f32 narrow) children)"

definition ReadSequenceForBuffer :: "(Node \<Rightarrow> error + 'v) \<Rightarrow> Node list \<Rightarrow> error + 'v list" where
  "ReadSequenceForBuffer parse children = parse_each parse children"

definition read_Curve :: "(f64 \<Rightarrow> f32) \<Rightarrow> Node list \<Rightarrow> error + Curve" where
  "read_Curve narrow nodes =
     (case nodes of
        node_a # node_b # rest \<Rightarrow>
          (case ParseIntOrFloat_u32 node_a of
             Inl e \<Rightarrow> Inl e
           | Inr va \<Rightarrow>
          (case ParseIntOrFloat_u32 node_b of
             Inl e \<Rightarrow> Inl e
           | Inr vb \<Rightarrow>
          (case parse_each (ParseIntOrFloat_f32 narrow) rest of
             Inl e \<Rightarrow> Inl e
           | Inr fs \<Rightarrow> Inr \<lparr>a = va, b = vb, floats = fs\<rparr>)))
      | _ \<Rightarrow> Inl RymlError)"

fun ReadSequenceForCurve :: "(f64 \<Rightarrow> f32) \<Rightarrow> nat \<Rightarrow> Node list \<Rightarrow> error + Curve list" where
  "ReadSequenceForCurve narrow 0 nodes = Inr []"
| "ReadSequenceForCurve narrow (Suc N) nodes =
     (case read_Curve narrow (take 32 nodes) of
        Inl e \<Rightarrow> Inl e
      | Inr curve \<Rightarrow>
          (case ReadSequenceForCurve narrow N (drop 32 nodes) of
             Inl e \<Rightarrow> Inl e
           | Inr curves \<Rightarrow> Inr (curve # curves)))"

text \<open>
  \<^verbatim>\<open>read(node, Parameter*)\<close>: \<open>Inr None\<close> is the return value \<^verbatim>\<open>false\<close>.  The
  fields of a numerical struct are taken from the list that
  \<open>ReadSequenceForNumericalStruct\<close> returns, whose length is the number of fields.
\<close>

definition read_Parameter :: "(f64 \<Rightarrow> f32) \<Rightarrow> Node \<Rightarrow> error + Parameter option" where
  "read_Parameter narrow node =
     (case node of
        Seq tag children \<Rightarrow>
          map_sum id Some
           (if tag = ''!vec2'' then
              map_sum id (\<lambda>fs. ParamVec2 (Vector2f (fs ! 0) (fs ! 1)))
                (ReadSequenceForNumericalStruct narrow 2 children)
            else if tag = ''!vec3'' then
              map_sum id (\<lambda>fs. ParamVec3 (Vector3f (fs ! 0) (fs ! 1) (fs ! 2)))
                (ReadSequenceForNumericalStruct narrow 3 children)
            else if tag = ''!vec4'' then
              map_sum id (\<lambda>fs. ParamVec4 (Vector4f (fs ! 0) (fs ! 1) (fs ! 2) (fs ! 3)))
                (ReadSequenceForNumericalStruct narrow 4 children)
            else if tag = ''!color'' then
              map_sum id (\<lambda>fs. ParamColor (Color4f (fs ! 0) (fs ! 1) (fs ! 2) (fs ! 3)))
                (ReadSequenceForNumericalStruct narrow 4 children)
            else if tag = ''!curve'' then
              (if length children = 1 * 32 then
                 map_sum id ParamCurve1 (ReadSequenceForCurve narrow 1 children)
               else if length children = 2 * 32 then
                 map_sum id ParamCurve2 (ReadSequenceForCurve narrow 2 children)
               else if length children = 3 * 32 then
                 map_sum id ParamCurve3 (ReadSequenceForCurve narrow 3 children)
               else if length children = 4 * 32 then
                 map_sum id ParamCurve4 (ReadSequenceForCurve narrow 4 children)
               else Inl InvalidDataError)
            else if tag = ''!buffer_int'' then
              map_sum id ParamBufferInt (ReadSequenceForBuffer ParseIntOrFloat_int children)
            else if tag = ''!buffer_f32'' then
              map_sum id ParamBufferF32
                (ReadSequenceForBuffer (ParseIntOrFloat_f32 narrow) children)
            else if tag = ''!buffer_u32'' then
              map_sum id ParamBufferU32 (ReadSequenceForBuffer ParseIntOrFloat_u32 children)
            else if tag = ''!buffer_binary'' then
              map_sum id ParamBufferBinary (ReadSequenceForBuffer ParseIntOrFloat_u8 children)
            else if tag = ''!quat'' then
              map_sum id (\<lambda>fs. ParamQuat (Quatf (fs ! 0) (fs ! 1) (fs ! 2) (fs ! 3)))
                (ReadSequenceForNumericalStruct narrow 4 children)
            else Inl InvalidDataError)
      | Val tag r \<Rightarrow>
          (case ParseScalar node of
             Inl e \<Rightarrow> Inl e
           | Inr scalar \<Rightarrow> map_sum id Some (ScalarToValue narrow tag scalar))
      | Map tag children \<Rightarrow> Inr None)"

section \<open>The YAML emitter\<close>

text \<open>
  The output of \<open>TextEmitter\<close> is the sequence of calls it makes on the libyaml emitter:
  the events it builds itself and the \<^verbatim>\<open>yml::LibyamlEmitter\<close> methods
  (\<^verbatim>\<open>EmitBool\<close>, \<^verbatim>\<open>EmitInt\<close>, \<^verbatim>\<open>EmitString\<close>, \<^verbatim>\<open>EmitSimpleSequence\<close>, the
  constructor and destructor of \<^verbatim>\<open>MappingScope\<close>), with their arguments; an absent tag
  argument is the empty string.  The state is the per-document extra name table, the
  process-wide default table of \<^verbatim>\<open>GetDefaultNameTable\<close>, and the output so far.
\<close>

datatype Number = NumF f32 | NumI int

datatype Event =
    StreamStart
  | DocumentStart
  | DocumentEnd
  | StreamEnd
  | MappingStart string
  | MappingEnd
  | SequenceStart string
  | SequenceEnd
  | EmitBool bool
  | EmitFloat f32
  | EmitInt int string
  | EmitString string string
  | EmitSimpleSequence "Number list" string

record TextEmitter =
  m_extra_name_table :: NameTable
  default_name_table :: NameTable
  emitter :: "Event list"

definition Emit_event :: "Event \<Rightarrow> TextEmitter \<Rightarrow> TextEmitter" where
  "Emit_event e st = st\<lparr>emitter := emitter st @ [e]\<rparr>"

definition IsStringType :: "Type \<Rightarrow> bool" where
  "IsStringType ty = (ty \<in> {Type_String32, Type_String64, Type_String256, Type_StringRef})"

fun GetStringView :: "Parameter \<Rightarrow> string option" where
  "GetStringView (ParamString32 s) = Some s"
| "GetStringView (ParamString64 s) = Some s"
| "GetStringView (ParamString256 s) = Some s"
| "GetStringView (ParamStringRef s) = Some s"
| "GetStringView _ = None"

text \<open>
  Modelled from the spec: \<^verbatim>\<open>ParameterIO::ParamRootKey\<close> is the CRC32 of
  \<^verbatim>\<open>"param_root"\<close> (section 3.3).
\<close>

definition ParamRootKey :: u32 where
  "ParamRootKey = crc32 ''param_root''"

fun BuildExtraNameTable_params :: "(u32 \<times> Parameter) list \<Rightarrow> NameTable \<Rightarrow> NameTable" where
  "BuildExtraNameTable_params [] t = t"
| "BuildExtraNameTable_params ((param_name, param) # rest) t =
     BuildExtraNameTable_params rest
       (if IsStringType (GetType param) then
          (case GetStringView param of Some s \<Rightarrow> AddNameReference t s | None \<Rightarrow> t)
        else t)"

fun BuildExtraNameTable_objects :: "(u32 \<times> ParameterObject) list \<Rightarrow> NameTable \<Rightarrow> NameTable" where
  "BuildExtraNameTable_objects [] t = t"
| "BuildExtraNameTable_objects ((obj_name, obj) # rest) t =
     BuildExtraNameTable_objects rest (BuildExtraNameTable_params (params obj) t)"

fun BuildExtraNameTable :: "ParameterList \<Rightarrow> NameTable \<Rightarrow> NameTable"
  and BuildExtraNameTable_lists :: "(u32 \<times> ParameterList) list \<Rightarrow> NameTable \<Rightarrow> NameTable" where
  "BuildExtraNameTable (ParameterList objs lsts) t =
     BuildExtraNameTable_lists lsts (BuildExtraNameTable_objects objs t)"
| "BuildExtraNameTable_lists [] t = t"
| "BuildExtraNameTable_lists ((sub_list_name, sub_list) # rest) t =
     BuildExtraNameTable_lists rest (BuildExtraNameTable sub_list t)"

definition EmitName :: "u32 \<Rightarrow> int \<Rightarrow> u32 \<Rightarrow> TextEmitter \<Rightarrow> TextEmitter" where
  "EmitName name index parent_name st =
     (case GetName (m_extra_name_table st) name index parent_name of
        (Some name_str, extra') \<Rightarrow>
          Emit_event (EmitString name_str []) (st\<lparr>m_extra_name_table := extra'\<rparr>)
      | (None, extra') \<Rightarrow>
          (case GetName (default_name_table st) name index parent_name of
             (Some name_str, table') \<Rightarrow>
               Emit_event (EmitString name_str [])
                 (st\<lparr>m_extra_name_table := extra', default_name_table := table'\<rparr>)
           | (None, table') \<Rightarrow>
               Emit_event (EmitInt (uint name) [])
                 (st\<lparr>m_extra_name_table := extra', default_name_table := table'\<rparr>)))"

fun EmitCurves_floats :: "f32 list \<Rightarrow> TextEmitter \<Rightarrow> TextEmitter" where
  "EmitCurves_floats [] st = st"
| "EmitCurves_floats (v # rest) st = EmitCurves_floats rest (Emit_event (EmitFloat v) st)"

fun EmitCurves_loop :: "Curve list \<Rightarrow> TextEmitter \<Rightarrow> TextEmitter" where
  "EmitCurves_loop [] st = st"
| "EmitCurves_loop (curve # rest) st =
     (let st = Emit_event (EmitInt (uint (a curve)) []) st;
          st = Emit_event (EmitInt (uint (b curve)) []) st;
          st = EmitCurves_floats (floats curve) st
      in EmitCurves_loop rest st)"

definition EmitCurves :: "Curve list \<Rightarrow> TextEmitter \<Rightarrow> TextEmitter" where
  "EmitCurves curves st =
     (let st = Emit_event (SequenceStart ''!curve'') st;
          st = EmitCurves_loop curves st
      in Emit_event SequenceEnd st)"

fun EmitParameter :: "Parameter \<Rightarrow> TextEmitter \<Rightarrow> TextEmitter" where
  "EmitParameter (ParamBool v) st = Emit_event (EmitBool v) st"
| "EmitParameter (ParamF32 v) st = Emit_event (EmitFloat v) st"
| "EmitParameter (ParamInt v) st = Emit_event (EmitInt (sint v) []) st"
| "EmitParameter (ParamVec2 (Vector2f x y)) st =
     Emit_event (EmitSimpleSequence [NumF x, NumF y] ''!vec2'') st"
| "EmitParameter (ParamVec3 (Vector3f x y z)) st =
     Emit_event (EmitSimpleSequence [NumF x, NumF y, NumF z] ''!vec3'') st"
| "EmitParameter (ParamVec4 (Vector4f x y z t)) st =
     Emit_event (EmitSimpleSequence [NumF x, NumF y, NumF z, NumF t] ''!vec4'') st"
| "EmitParameter (ParamColor (Color4f r g bl al)) st =
     Emit_event (EmitSimpleSequence [NumF r, NumF g, NumF bl, NumF al] ''!color'') st"
| "EmitParameter (ParamString32 v) st = Emit_event (EmitString v ''!str32'') st"
| "EmitParameter (ParamString64 v) st = Emit_event (EmitString v ''!str64'') st"
| "EmitParameter (ParamCurve1 v) st = EmitCurves v st"
| "EmitParameter (ParamCurve2 v) st = EmitCurves v st"
| "EmitParameter (ParamCurve3 v) st = EmitCurves v st"
| "EmitParameter (ParamCurve4 v) st = EmitCurves v st"
| "EmitParameter (ParamBufferInt v) st =
     Emit_event (EmitSimpleSequence (map (\<lambda>x. NumI (sint x)) v) ''!buffer_int'') st"
| "EmitParameter (ParamBufferF32 v) st =
     Emit_event (EmitSimpleSequence (map NumF v) ''!buffer_f32'') st"
| "EmitParameter (ParamString256 v) st = Emit_event (EmitString v ''!str256'') st"
| "EmitParameter (ParamQuat (Quatf qa qb qc qd)) st =
     Emit_event (EmitSimpleSequence [NumF qa, NumF qb, NumF qc, NumF qd] ''!quat'') st"
| "EmitParameter (ParamU32 v) st = Emit_event (EmitInt (uint v) ''!u'') st"
| "EmitParameter (ParamBufferU32 v) st =
     Emit_event (EmitSimpleSequence (map (\<lambda>x. NumI (uint x)) v) ''!buffer_u32'') st"
| "EmitParameter (ParamBufferBinary v) st =
     Emit_event (EmitSimpleSequence (map (\<lambda>x. NumI (uint x)) v) ''!buffer_binary'') st"
| "EmitParameter (ParamStringRef v) st = Emit_event (EmitString v []) st"

fun EmitParameterObject_loop ::
  "(u32 \<times> Parameter) list \<Rightarrow> nat \<Rightarrow> u32 \<Rightarrow> TextEmitter \<Rightarrow> TextEmitter" where
  "EmitParameterObject_loop [] i parent_name st = st"
| "EmitParameterObject_loop ((name, param) # rest) i parent_name st =
     (let st = EmitName name (int i) parent_name st;
          st = EmitParameter param st
      in EmitParameterObject_loop rest (i + 1) parent_name st)"

definition EmitParameterObject :: "ParameterObject \<Rightarrow> u32 \<Rightarrow> TextEmitter \<Rightarrow> TextEmitter" where
  "EmitParameterObject pobject parent_name st =
     (let st = Emit_event (MappingStart ''!obj'') st;
          st = EmitParameterObject_loop (params pobject) 0 parent_name st
      in Emit_event MappingEnd st)"

fun EmitParameterList_objects ::
  "(u32 \<times> ParameterObject) list \<Rightarrow> nat \<Rightarrow> u32 \<Rightarrow> TextEmitter \<Rightarrow> TextEmitter" where
  "EmitParameterList_objects [] i parent_name st = st"
| "EmitParameterList_objects ((name, object) # rest) i parent_name st =
     (let st = EmitName name (int i) parent_name st;
          st = EmitParameterObject object name st
      in EmitParameterList_objects rest (i + 1) parent_name st)"

fun EmitParameterList :: "ParameterList \<Rightarrow> u32 \<Rightarrow> TextEmitter \<Rightarrow> TextEmitter"
  and EmitParameterList_lists ::
    "(u32 \<times> ParameterList) list \<Rightarrow> nat \<Rightarrow> u32 \<Rightarrow> TextEmitter \<Rightarrow> TextEmitter" where
  "EmitParameterList (ParameterList objs lsts) parent_name st =
     (let st = Emit_event (MappingStart ''!list'') st;
          st = Emit_event (EmitString ''objects'' []) st;
          st = Emit_event (MappingStart []) st;
          st = EmitParameterList_objects objs 0 parent_name st;
          st = Emit_event MappingEnd st;
          st = Emit_event (EmitString ''lists'' []) st;
          st = Emit_event (MappingStart []) st;
          st = EmitParameterList_lists lsts 0 parent_name st;
          st = Emit_event MappingEnd st
      in Emit_event MappingEnd st)"
| "EmitParameterList_lists [] i parent_name st = st"
| "EmitParameterList_lists ((name, list) # rest) i parent_name st =
     (let st = EmitName name (int i) parent_name st;
          st = EmitParameterList list name st
      in EmitParameterList_lists rest (i + 1) parent_name st)"

definition EmitParameterIO :: "ParameterIO \<Rightarrow> TextEmitter \<Rightarrow> TextEmitter" where
  "EmitParameterIO pio st =
     (let st = Emit_event (MappingStart ''!io'') st;
          st = Emit_event (EmitString ''version'' []) st;
          st = Emit_event (EmitInt (uint (version pio)) []) st;
          st = Emit_event (EmitString ''type'' []) st;
          st = Emit_event (EmitString (type pio) []) st;
          st = Emit_event (EmitString ''param_root'' []) st;
          st = EmitParameterList (param_root pio) ParamRootKey st
      in Emit_event MappingEnd st)"

definition empty_NameTable :: NameTable where
  "empty_NameTable = \<lparr>names = Map.empty, owned_names = Map.empty, numbered_names = []\<rparr>"

definition Emit :: "ParameterIO \<Rightarrow> TextEmitter \<Rightarrow> TextEmitter" where
  "Emit pio st =
     (let st = st\<lparr>m_extra_name_table := empty_NameTable\<rparr>;
          st = st\<lparr>m_extra_name_table :=
                  BuildExtraNameTable (param_root pio) (m_extra_name_table st)\<rparr>;
          st = Emit_event StreamStart st;
          st = Emit_event DocumentStart st;
          st = EmitParameterIO pio st;
          st = Emit_event DocumentEnd st
      in Emit_event StreamEnd st)"

text \<open>A freshly constructed \<open>TextEmitter\<close>, beside the default table as it stands.\<close>

definition initial_emitter :: "NameTable \<Rightarrow> TextEmitter" where
  "initial_emitter table =
     \<lparr>m_extra_name_table = empty_NameTable, default_name_table = table, emitter = []\<rparr>"

text \<open>
  \<^verbatim>\<open>ParameterIO::ToText\<close>: the output, and the default table after the call.  Turning
  the calls into text is the work of libyaml.
\<close>

definition ToText :: "ParameterIO \<Rightarrow> NameTable \<Rightarrow> Event list \<times> NameTable" where
  "ToText pio table =
     (let st = Emit pio (initial_emitter table)
      in (emitter st, default_name_table st))"

section \<open>Notions used to state the properties of the reader\<close>

text \<open>
  Scalar nodes that the scalar parser accepted, and those it read as an integer or as a
  floating-point number.
\<close>

definition is_parsed_scalar :: "Node \<Rightarrow> bool" where
  "is_parsed_scalar node = (case node of Val tag (Inr s) \<Rightarrow> True | _ \<Rightarrow> False)"

definition is_int_scalar :: "Node \<Rightarrow> bool" where
  "is_int_scalar node = (case node of Val tag (Inr (ScalarU64 v)) \<Rightarrow> True | _ \<Rightarrow> False)"

definition is_float_scalar :: "Node \<Rightarrow> bool" where
  "is_float_scalar node = (case node of Val tag (Inr (ScalarF64 v)) \<Rightarrow> True | _ \<Rightarrow> False)"

text \<open>
  The elements of a curve sequence in groups of 32: two integers, then 30 floats.
\<close>

definition curve_elements :: "Node list \<Rightarrow> bool" where
  "curve_elements nodes =
     list_all (\<lambda>i. if i mod 32 < 2 then is_int_scalar (nodes ! i) else is_float_scalar (nodes ! i))
       [0..<length nodes]"

text \<open>The sequence tags of section 4.4, and the number of fields of the fixed-size ones.\<close>

definition sequence_tags :: "string set" where
  "sequence_tags = {''!vec2'', ''!vec3'', ''!vec4'', ''!color'', ''!quat'', ''!curve'',
     ''!buffer_int'', ''!buffer_f32'', ''!buffer_u32'', ''!buffer_binary''}"

definition num_fields :: "string \<Rightarrow> nat option" where
  "num_fields tag =
     (if tag = ''!vec2'' then Some 2
      else if tag = ''!vec3'' then Some 3
      else if tag \<in> {''!vec4'', ''!color'', ''!quat''} then Some 4
      else None)"

definition curve_type :: "nat \<Rightarrow> Type" where
  "curve_type K = (if K = 1 then Type_Curve1 else if K = 2 then Type_Curve2
                   else if K = 3 then Type_Curve3 else Type_Curve4)"

definition variant_of_tag :: "string \<Rightarrow> nat \<Rightarrow> Type" where
  "variant_of_tag tag n =
     (if tag = ''!vec2'' then Type_Vec2
      else if tag = ''!vec3'' then Type_Vec3
      else if tag = ''!vec4'' then Type_Vec4
      else if tag = ''!color'' then Type_Color
      else if tag = ''!quat'' then Type_Quat
      else if tag = ''!curve'' then curve_type (n div 32)
      else if tag = ''!buffer_int'' then Type_BufferInt
      else if tag = ''!buffer_f32'' then Type_BufferF32
      else if tag = ''!buffer_u32'' then Type_BufferU32
      else Type_BufferBinary)"

text \<open>
  A sequence of valid shape for its tag: the right number of elements, each of the kind
  that its position asks for.
\<close>

definition valid_shape :: "string \<Rightarrow> Node list \<Rightarrow> bool" where
  "valid_shape tag children =
     (case num_fields tag of
        Some n \<Rightarrow> length children = n \<and> list_all is_float_scalar children
      | None \<Rightarrow>
          (if tag = ''!curve'' then
             length children \<in> {32, 64, 96, 128} \<and> curve_elements children
           else if tag = ''!buffer_f32'' then list_all is_float_scalar children
           else list_all is_int_scalar children))"


fun curves_of :: "Parameter \<Rightarrow> Curve list" where
  "curves_of (ParamCurve1 cs) = cs"
| "curves_of (ParamCurve2 cs) = cs"
| "curves_of (ParamCurve3 cs) = cs"
| "curves_of (ParamCurve4 cs) = cs"
| "curves_of _ = []"


text \<open>
  Sample nodes: an untagged scalar read as the double \<open>+0.0\<close> (bit pattern 0, which
  narrows to the float with bit pattern 0) and one read as the integer 0.
\<close>

definition float_node :: Node where
  "float_node = Val [] (Inr (ScalarF64 0))"

definition int_node :: Node where
  "int_node = Val [] (Inr (ScalarU64 0))"

definition curve_nodes :: "nat \<Rightarrow> Node list" where
  "curve_nodes K = concat (replicate K (replicate 2 int_node @ replicate 30 float_node))"


section \<open>Notions used to state the properties of the name guesser\<close>

text \<open>The first string of a list whose CRC32 is the wanted hash.\<close>

definition first_match :: "u32 \<Rightarrow> string list \<Rightarrow> string option" where
  "first_match hash cs = find (\<lambda>c. crc32 c = hash) cs"

text \<open>
  The candidates of \<^verbatim>\<open>test_names\<close> in the order in which the source tries them:
  for each \<open>i\<close>, every format.
\<close>

definition candidates :: "string \<Rightarrow> int list \<Rightarrow> string list" where
  "candidates prefix idxs =
     concat (map (\<lambda>i. map (\<lambda>f. StrFormat f [ArgStr prefix, ArgInt i]) formats) idxs)"

text \<open>
  The candidates in the order of section 4.5, step 3 of the specification: for each format,
  every \<open>i \<in> {index, index + 1}\<close>.
\<close>

definition spec_candidates :: "string \<Rightarrow> int \<Rightarrow> string list" where
  "spec_candidates prefix index =
     concat (map (\<lambda>f. map (\<lambda>i. StrFormat f [ArgStr prefix, ArgInt i]) [index, index + 1])
       formats)"

text \<open>Steps 1 and 2 of \<open>GetName\<close>: the direct lookup in the two dictionaries.\<close>

definition lookup :: "NameTable \<Rightarrow> u32 \<Rightarrow> string option" where
  "lookup t hash =
     (case names t hash of Some name \<Rightarrow> Some name | None \<Rightarrow> owned_names t hash)"

text \<open>The table after a sequence of further \<open>GetName\<close> calls, given by their arguments.\<close>

definition GetName_calls :: "NameTable \<Rightarrow> (u32 \<times> int \<times> u32) list \<Rightarrow> NameTable" where
  "GetName_calls t calls = foldl (\<lambda>s (h, i, p). snd (GetName s h i p)) t calls"

text \<open>A table that knows the single name \<open>n\<close>, as \<open>AddNameReference\<close> leaves it.\<close>

definition table_of :: "string \<Rightarrow> NameTable" where
  "table_of n = \<lparr>names = [crc32 n \<mapsto> n], owned_names = Map.empty, numbered_names = []\<rparr>"

text \<open>
  The operations of a \<open>NameTable\<close> that change it, as calls with their arguments, and the
  table after a sequence of them.  A call \<open>registers_other hash name\<close> when it is an
  \<open>AddNameReference\<close> of a string other than \<open>name\<close> whose CRC32 is \<open>hash\<close>.
\<close>

datatype NameTable_call = CallGetName u32 int u32 | CallAddNameReference string

fun apply_call :: "NameTable \<Rightarrow> NameTable_call \<Rightarrow> NameTable" where
  "apply_call t (CallGetName h i p) = snd (GetName t h i p)"
| "apply_call t (CallAddNameReference s) = AddNameReference t s"

definition apply_calls :: "NameTable \<Rightarrow> NameTable_call list \<Rightarrow> NameTable" where
  "apply_calls t calls = foldl apply_call t calls"

fun registers_other :: "u32 \<Rightarrow> string \<Rightarrow> NameTable_call \<Rightarrow> bool" where
  "registers_other hash name (CallGetName h i p) = False"
| "registers_other hash name (CallAddNameReference s) = (crc32 s = hash \<and> s \<noteq> name)"

text \<open>The tables after the guesses of \<open>"Foo_1"\<close> and of \<open>"Vhmonid_1"\<close>.\<close>

definition guessed_Foo_1 :: NameTable where
  "guessed_Foo_1 =
     (table_of ''FooList'')\<lparr>owned_names :=
        (owned_names (table_of ''FooList''))(crc32 ''Foo_1'' \<mapsto> ''Foo_1'')\<rparr>"

definition guessed_Vhmonid_1 :: NameTable where
  "guessed_Vhmonid_1 =
     (table_of ''Vhmonid'')\<lparr>owned_names :=
        (owned_names (table_of ''Vhmonid''))(0xB483540E \<mapsto> ''Vhmonid_1'')\<rparr>"


section \<open>Notions used to state the properties of the emitter\<close>

text \<open>
  Every parameter of a tree: those of the objects of a list, then those of its sub-lists;
  and the values of the string-typed ones among them.
\<close>

fun all_params :: "ParameterList \<Rightarrow> Parameter list" where
  "all_params (ParameterList objs lsts) =
     concat (map (\<lambda>e. map snd (params (snd e))) objs) @
     concat (map (\<lambda>e. all_params (snd e)) lsts)"

definition string_values :: "ParameterList \<Rightarrow> string list" where
  "string_values plist =
     List.map_filter (\<lambda>p. if IsStringType (GetType p) then GetStringView p else None)
       (all_params plist)"

text \<open>
  What is emitted for a key: the name that the extra table recovers, else the name that the
  default table recovers, else the hash as an integer.
\<close>

definition name_event :: "TextEmitter \<Rightarrow> u32 \<Rightarrow> int \<Rightarrow> u32 \<Rightarrow> Event" where
  "name_event st name index parent_name =
     (case fst (GetName (m_extra_name_table st) name index parent_name) of
        Some name_str \<Rightarrow> EmitString name_str []
      | None \<Rightarrow>
          (case fst (GetName (default_name_table st) name index parent_name) of
             Some name_str \<Rightarrow> EmitString name_str []
           | None \<Rightarrow> EmitInt (uint name) []))"

text \<open>
  A small document with nested lists.  The root has one object, named \<open>"plumless"\<close>, with
  the string parameters \<open>"plumless0"\<close> (value \<open>"plumless"\<close>) and \<open>"param_root"\<close> (value
  \<open>"param_root"\<close>), and two lists: one named \<open>"param_root0"\<close> holding an empty object
  with the key 7, and one named \<open>"plumless"\<close> holding an empty object named
  \<open>"plumless_0"\<close>.  The tables below are the extra name table after the two string values
  are registered and after each of the three guesses made while emitting.
\<close>

definition nested_pio :: ParameterIO where
  "nested_pio =
     \<lparr>version = 0, type = ''xlink'',
      param_root = ParameterList
        [(crc32 ''plumless'',
          ParameterObject [(crc32 ''plumless0'', ParamStringRef ''plumless''),
                           (crc32 ''param_root'', ParamString32 ''param_root'')])]
        [(crc32 ''param_root0'', ParameterList [(7, ParameterObject [])] []),
         (crc32 ''plumless'',
          ParameterList [(crc32 ''plumless_0'', ParameterObject [])] [])]\<rparr>"

definition nested_T0 :: NameTable where
  "nested_T0 =
     \<lparr>names = [crc32 ''plumless'' \<mapsto> ''plumless'', crc32 ''param_root'' \<mapsto> ''param_root''],
      owned_names = Map.empty, numbered_names = []\<rparr>"

definition nested_T1 :: NameTable where
  "nested_T1 = nested_T0\<lparr>owned_names := [crc32 ''plumless0'' \<mapsto> ''plumless0'']\<rparr>"

definition nested_T2 :: NameTable where
  "nested_T2 = nested_T0\<lparr>owned_names :=
     [crc32 ''plumless0'' \<mapsto> ''plumless0'', crc32 ''param_root0'' \<mapsto> ''param_root0'']\<rparr>"

definition nested_T3 :: NameTable where
  "nested_T3 = nested_T0\<lparr>owned_names :=
     [crc32 ''plumless0'' \<mapsto> ''plumless0'', crc32 ''param_root0'' \<mapsto> ''param_root0'',
      crc32 ''plumless_0'' \<mapsto> ''plumless_0'']\<rparr>"

section \<open>The name guesser\<close>

subsection \<open>The loops as searches\<close>

lemma first_match_append:
  "first_match hash (xs @ ys) =
     (case first_match hash xs of Some x \<Rightarrow> Some x | None \<Rightarrow> first_match hash ys)"
  unfolding first_match_def by (induction xs) auto

lemma AddName_fresh:
  "owned_names t hash = None \<Longrightarrow>
     AddName t hash c = (c, t\<lparr>owned_names := (owned_names t)(hash \<mapsto> c)\<rparr>)"
  by (simp add: AddName_def)

lemma test_formats_first_match:
  "test_formats t hash prefix i fs =
     map_option (AddName t hash)
       (first_match hash (map (\<lambda>f. StrFormat f [ArgStr prefix, ArgInt i]) fs))"
  unfolding first_match_def by (induction fs) (simp_all add: Let_def)

lemma test_indices_first_match:
  "test_indices t hash prefix idxs =
     map_option (AddName t hash) (first_match hash (candidates prefix idxs))"
proof (induction idxs)
  case Nil
  show ?case by (simp add: candidates_def first_match_def)
next
  case (Cons i idxs)
  have split: "candidates prefix (i # idxs) =
      map (\<lambda>f. StrFormat f [ArgStr prefix, ArgInt i]) formats @ candidates prefix idxs"
    by (simp add: candidates_def)
  show ?case
    unfolding split first_match_append
    using Cons by (simp add: test_formats_first_match split: option.splits)
qed

lemma test_names_first_match:
  "test_names t hash index prefix =
     map_option (AddName t hash) (first_match hash (candidates prefix [index, index + 1]))"
  by (simp add: test_names_def test_indices_first_match)

subsection \<open>A successful guess inserts exactly one entry\<close>

lemma test_names_fresh:
  assumes "owned_names t hash = None" and "test_names t hash index prefix = Some (n, t')"
  shows "t' = t\<lparr>owned_names := (owned_names t)(hash \<mapsto> n)\<rparr>"
  using assms by (auto simp: test_names_first_match AddName_fresh)

lemma test_suffixes_fresh:
  assumes "owned_names t hash = None"
    and "test_suffixes t hash index parent_name sfx = Some (n, t')"
  shows "t' = t\<lparr>owned_names := (owned_names t)(hash \<mapsto> n)\<rparr>"
  using assms
  by (induction sfx) (auto split: if_splits option.splits dest: test_names_fresh)

lemma test_numbered_indices_fresh:
  assumes "owned_names t hash = None"
    and "test_numbered_indices t hash name idxs = Some (n, t')"
  shows "t' = t\<lparr>owned_names := (owned_names t)(hash \<mapsto> n)\<rparr>"
  using assms
  by (induction idxs) (auto simp: Let_def AddName_fresh split: if_splits)

lemma test_numbered_names_fresh:
  assumes "owned_names t hash = None"
    and "test_numbered_names t hash index ns = Some (n, t')"
  shows "t' = t\<lparr>owned_names := (owned_names t)(hash \<mapsto> n)\<rparr>"
  using assms
  by (induction ns) (auto split: option.splits dest: test_numbered_indices_fresh)

lemma last_resort_cases:
  assumes "owned_names t hash = None" and "last_resort t hash index = (r, t')"
  shows "(r = None \<and> t' = t) \<or>
         (\<exists>c. r = Some c \<and> t' = t\<lparr>owned_names := (owned_names t)(hash \<mapsto> c)\<rparr>)"
  using assms unfolding last_resort_def
  by (auto split: option.splits dest: test_numbered_names_fresh)

lemma GetName_cases:
  assumes "GetName t hash index parent = (r, t')"
  shows "(r = lookup t hash \<and> t' = t) \<or>
         (lookup t hash = None \<and>
            (\<exists>c. r = Some c \<and> t' = t\<lparr>owned_names := (owned_names t)(hash \<mapsto> c)\<rparr>))"
proof (cases "lookup t hash")
  case (Some n)
  then show ?thesis using assms
    by (auto simp: lookup_def GetName_def split: option.splits)
next
  case None
  then have n: "names t hash = None" and o: "owned_names t hash = None"
    by (auto simp: lookup_def split: option.splits)
  show ?thesis
    using assms None unfolding GetName_def n o
    by (auto split: option.splits simp del: test_suffixes.simps
        dest: test_names_fresh [OF o] test_suffixes_fresh [OF o] last_resort_cases [OF o])
qed

lemma GetName_lookup:
  "lookup t hash = Some n \<Longrightarrow> GetName t hash index parent = (Some n, t)"
  by (auto simp: lookup_def GetName_def split: option.splits)

lemma GetName_Some_lookup:
  assumes "GetName t hash index parent = (Some n, t')"
  shows "lookup t' hash = Some n"
  using GetName_cases [OF assms] by (auto simp: lookup_def split: option.splits)

lemma GetName_keeps_lookup:
  assumes "lookup t hash = Some n"
  shows "lookup (snd (GetName t h i p)) hash = Some n"
proof -
  obtain r t' where g: "GetName t h i p = (r, t')" by (cases "GetName t h i p")
  from GetName_cases [OF g] show ?thesis
    using assms unfolding g by (auto simp: lookup_def split: option.splits)
qed

lemma GetName_calls_keep_lookup:
  "lookup t hash = Some n \<Longrightarrow> lookup (GetName_calls t calls) hash = Some n"
  unfolding GetName_calls_def
  by (induction calls arbitrary: t) (auto simp: GetName_keeps_lookup)

lemma GetName_first_candidate:
  assumes "names t hash = None" and "owned_names t hash = None"
    and "names t parent = Some parent_name"
    and "first_match hash (candidates parent_name [index, index + 1]) = Some c"
  shows "GetName t hash index parent =
           (Some c, t\<lparr>owned_names := (owned_names t)(hash \<mapsto> c)\<rparr>)"
  using assms by (simp add: GetName_def test_names_first_match AddName_fresh)

subsection \<open>Concrete names\<close>

lemmas crc32_eval = crc32_def crc32_update_def crc32_shift_def

lemma crc32_FooList: "crc32 ''FooList'' = 0x9DC94A14"
  by (simp add: crc32_eval)

lemma crc32_Foo_1: "crc32 ''Foo_1'' = 0x5DA2701D"
  by (simp add: crc32_eval)

lemma candidates_FooList:
  "candidates ''FooList'' [1, 1 + 1] =
     [''FooList1'', ''FooList_1'', ''FooList01'', ''FooList_01'', ''FooList001'', ''FooList_001'',
      ''FooList2'', ''FooList_2'', ''FooList02'', ''FooList_02'', ''FooList002'', ''FooList_002'']"
  by code_simp

lemma candidates_Children:
  "candidates ''Children'' [1, 1 + 1] =
     [''Children1'', ''Children_1'', ''Children01'', ''Children_01'', ''Children001'',
      ''Children_001'', ''Children2'', ''Children_2'', ''Children02'', ''Children_02'',
      ''Children002'', ''Children_002'']"
  by code_simp

lemma candidates_Foo:
  "candidates ''Foo'' [1, 1 + 1] =
     [''Foo1'', ''Foo_1'', ''Foo01'', ''Foo_01'', ''Foo001'', ''Foo_001'',
      ''Foo2'', ''Foo_2'', ''Foo02'', ''Foo_02'', ''Foo002'', ''Foo_002'']"
  by code_simp

lemma no_match_FooList: "first_match 0x5DA2701D (candidates ''FooList'' [1, 1 + 1]) = None"
  unfolding candidates_FooList by (simp add: first_match_def crc32_eval)

lemma no_match_Children: "first_match 0x5DA2701D (candidates ''Children'' [1, 1 + 1]) = None"
  unfolding candidates_Children by (simp add: first_match_def crc32_eval)

lemma match_Foo: "first_match 0x5DA2701D (candidates ''Foo'' [1, 1 + 1]) = Some ''Foo_1''"
  unfolding candidates_Foo by (simp add: first_match_def crc32_eval)

lemma suffixes_FooList:
  "\<not> EndsWith ''FooList'' ''s''" "\<not> EndsWith ''FooList'' ''es''" "EndsWith ''FooList'' ''List''"
  "take (length ''FooList'' - length ''List'') ''FooList'' = ''Foo''"
  by (simp_all add: EndsWith_def)

lemma GetName_Foo_1_general:
  assumes "names t (crc32 ''FooList'') = Some ''FooList''"
    and "names t (crc32 ''Foo_1'') = None"
    and "owned_names t (crc32 ''Foo_1'') = None"
  shows "GetName t (crc32 ''Foo_1'') 1 (crc32 ''FooList'') =
           (Some ''Foo_1'', t\<lparr>owned_names := (owned_names t)(crc32 ''Foo_1'' \<mapsto> ''Foo_1'')\<rparr>)"
proof -
  have n: "names t 0x5DA2701D = None" and o: "owned_names t 0x5DA2701D = None"
    using assms(2,3) by (simp_all add: crc32_Foo_1)
  have 1: "test_names t 0x5DA2701D 1 ''FooList'' = None"
    by (simp only: test_names_first_match no_match_FooList option.map)
  have 2: "test_names t 0x5DA2701D 1 ''Children'' = None"
    by (simp only: test_names_first_match no_match_Children option.map)
  have 3: "test_names t 0x5DA2701D 1 ''Foo'' = Some (AddName t 0x5DA2701D ''Foo_1'')"
    by (simp only: test_names_first_match match_Foo option.map)
  have 4: "test_suffixes t 0x5DA2701D 1 ''FooList'' [''s'', ''es'', ''List''] =
             Some (AddName t 0x5DA2701D ''Foo_1'')"
    by (simp only: test_suffixes.simps suffixes_FooList 3 if_True if_False
        not_True_eq_False not_False_eq_True option.case)
  show ?thesis
    unfolding crc32_Foo_1 GetName_def
    by (simp only: n o assms(1) 1 2 4 option.case AddName_fresh [OF o] prod.case)
qed

lemma table_of_FooList:
  "names (table_of ''FooList'') (crc32 ''FooList'') = Some ''FooList''"
  "names (table_of ''FooList'') (crc32 ''Foo_1'') = None"
  "owned_names (table_of ''FooList'') (crc32 ''Foo_1'') = None"
  by (simp_all add: table_of_def crc32_FooList crc32_Foo_1)

lemma crc32_Vhmonid: "crc32 ''Vhmonid'' = 0x878049E8"
  by (simp add: crc32_eval)

lemma candidates_Vhmonid:
  "candidates ''Vhmonid'' [1, 1 + 1] =
     [''Vhmonid1'', ''Vhmonid_1'', ''Vhmonid01'', ''Vhmonid_01'', ''Vhmonid001'',
      ''Vhmonid_001'', ''Vhmonid2'', ''Vhmonid_2'', ''Vhmonid02'', ''Vhmonid_02'',
      ''Vhmonid002'', ''Vhmonid_002'']"
  by code_simp

lemma spec_candidates_Vhmonid:
  "spec_candidates ''Vhmonid'' 1 =
     [''Vhmonid1'', ''Vhmonid2'', ''Vhmonid_1'', ''Vhmonid_2'', ''Vhmonid01'', ''Vhmonid02'',
      ''Vhmonid_01'', ''Vhmonid_02'', ''Vhmonid001'', ''Vhmonid002'', ''Vhmonid_001'',
      ''Vhmonid_002'']"
  by code_simp

lemma match_Vhmonid:
  "first_match 0xB483540E (candidates ''Vhmonid'' [1, 1 + 1]) = Some ''Vhmonid_1''"
  unfolding candidates_Vhmonid by (simp add: first_match_def crc32_eval)

lemma spec_match_Vhmonid:
  "first_match 0xB483540E (spec_candidates ''Vhmonid'' 1) = Some ''Vhmonid2''"
  unfolding spec_candidates_Vhmonid by (simp add: first_match_def crc32_eval)

lemma table_of_Vhmonid:
  "names (table_of ''Vhmonid'') 0xB483540E = None"
  "owned_names (table_of ''Vhmonid'') 0xB483540E = None"
  "names (table_of ''Vhmonid'') (crc32 ''Vhmonid'') = Some ''Vhmonid''"
  by (simp_all add: table_of_def crc32_Vhmonid)

lemma candidates_explicit:
  "candidates prefix [index, index + 1] =
     [StrFormat ''%s%d'' [ArgStr prefix, ArgInt index],
      StrFormat ''%s_%d'' [ArgStr prefix, ArgInt index],
      StrFormat ''%s%02d'' [ArgStr prefix, ArgInt index],
      StrFormat ''%s_%02d'' [ArgStr prefix, ArgInt index],
      StrFormat ''%s%03d'' [ArgStr prefix, ArgInt index],
      StrFormat ''%s_%03d'' [ArgStr prefix, ArgInt index],
      StrFormat ''%s%d'' [ArgStr prefix, ArgInt (index + 1)],
      StrFormat ''%s_%d'' [ArgStr prefix, ArgInt (index + 1)],
      StrFormat ''%s%02d'' [ArgStr prefix, ArgInt (index + 1)],
      StrFormat ''%s_%02d'' [ArgStr prefix, ArgInt (index + 1)],
      StrFormat ''%s%03d'' [ArgStr prefix, ArgInt (index + 1)],
      StrFormat ''%s_%03d'' [ArgStr prefix, ArgInt (index + 1)]]"
  by (simp add: candidates_def formats_def)

subsection \<open>Interleaved calls\<close>

lemma AddNameReference_keeps_lookup:
  assumes "lookup t hash = Some name" and "\<not> (crc32 s = hash \<and> s \<noteq> name)"
  shows "lookup (AddNameReference t s) hash = Some name"
  using assms by (auto simp: lookup_def AddNameReference_def split: option.splits)

lemma apply_calls_keep_lookup:
  "lookup t hash = Some name \<Longrightarrow> \<not> list_ex (registers_other hash name) calls \<Longrightarrow>
     lookup (apply_calls t calls) hash = Some name"
  unfolding apply_calls_def
proof (induction calls arbitrary: t)
  case Nil
  then show ?case by simp
next
  case (Cons c calls)
  have "lookup (apply_call t c) hash = Some name"
  proof (cases c)
    case (CallGetName h i p)
    then show ?thesis using Cons.prems(1) by (simp add: GetName_keeps_lookup)
  next
    case (CallAddNameReference s)
    then show ?thesis using Cons.prems by (simp add: AddNameReference_keeps_lookup)
  qed
  then show ?case using Cons by simp
qed

lemma GetName_Some_cases:
  assumes "GetName t hash index parent = (Some name, t')"
  shows "(t' = t \<and> (names t hash = Some name \<or>
            (names t hash = None \<and> owned_names t hash = Some name))) \<or>
         (names t hash = None \<and> owned_names t hash = None \<and>
            t' = t\<lparr>owned_names := (owned_names t)(hash \<mapsto> name)\<rparr>)"
  using GetName_cases [OF assms] by (auto simp: lookup_def split: option.splits)

lemma crc32_Vhmonid2: "crc32 ''Vhmonid2'' = 0xB483540E"
  by (simp add: crc32_eval)

lemma GetName_Vhmonid_1:
  "GetName (table_of ''Vhmonid'') 0xB483540E 1 (crc32 ''Vhmonid'') =
     (Some ''Vhmonid_1'', guessed_Vhmonid_1)"
  unfolding guessed_Vhmonid_1_def
  by (rule GetName_first_candidate [OF table_of_Vhmonid match_Vhmonid])

lemma GetName_after_AddNameReference:
  "GetName (AddNameReference guessed_Vhmonid_1 ''Vhmonid2'') 0xB483540E 1 (crc32 ''Vhmonid'') =
     (Some ''Vhmonid2'', AddNameReference guessed_Vhmonid_1 ''Vhmonid2'')"
  by (rule GetName_lookup)
     (simp add: lookup_def AddNameReference_def guessed_Vhmonid_1_def table_of_def
        crc32_Vhmonid2 crc32_Vhmonid)


lemma GetName_guessed_Foo_1:
  "GetName (table_of ''FooList'') (crc32 ''Foo_1'') 1 (crc32 ''FooList'') =
     (Some ''Foo_1'', guessed_Foo_1)"
  unfolding guessed_Foo_1_def by (rule GetName_Foo_1_general [OF table_of_FooList])

lemma calls_Foo_1:
  "\<not> list_ex (registers_other (crc32 ''Foo_1'') ''Foo_1'')
     [CallGetName (crc32 ''FooList'') 0 0, CallAddNameReference ''Foo_1'',
      CallAddNameReference ''FooList'']"
  by (simp add: crc32_FooList crc32_Foo_1)

section \<open>Claims about NameTable\<close>

text \<open>
  Claim C3.  \<open>GetName (crc32 "Foo_1") 1 (crc32 "FooList")\<close> returns \<open>"Foo_1"\<close> whenever
  \<open>names\<close> maps the hash of \<open>"FooList"\<close> to \<open>"FooList"\<close> and neither \<open>names\<close> nor
  \<open>owned_names\<close> has an entry for the hash of \<open>"Foo_1"\<close>: no candidate built from
  \<open>"FooList"\<close> or \<open>"Children"\<close> has that hash, \<open>"FooList"\<close> ends with neither \<open>"s"\<close>
  nor \<open>"es"\<close>, and stripping \<open>"List"\<close> leaves the prefix \<open>"Foo"\<close>, whose second
  candidate \<open>"%s_%d"\<close> at \<open>i = 1\<close> matches.  The name is inserted into \<open>owned_names\<close>.
\<close>

theorem GetName_Foo_1:
  assumes "names t (crc32 ''FooList'') = Some ''FooList''"
    and "names t (crc32 ''Foo_1'') = None"
    and "owned_names t (crc32 ''Foo_1'') = None"
  shows "GetName t (crc32 ''Foo_1'') 1 (crc32 ''FooList'') =
           (Some ''Foo_1'', t\<lparr>owned_names := (owned_names t)(crc32 ''Foo_1'' \<mapsto> ''Foo_1'')\<rparr>)"
  using assms by (rule GetName_Foo_1_general)

theorem GetName_Foo_1_witness:
  "names (table_of ''FooList'') (crc32 ''FooList'') = Some ''FooList'' \<and>
   names (table_of ''FooList'') (crc32 ''Foo_1'') = None \<and>
   owned_names (table_of ''FooList'') (crc32 ''Foo_1'') = None \<and>
   fst (GetName (table_of ''FooList'') (crc32 ''Foo_1'') 1 (crc32 ''FooList'')) = Some ''Foo_1''"
  using GetName_Foo_1 [OF table_of_FooList] by (simp add: table_of_FooList)

text \<open>
  Claim C4 (amended).  If \<open>GetName\<close> returns a name for \<open>(hash, index, parent)\<close>, then
  either the name was already in one of the dictionaries and the table is unchanged, or
  neither dictionary had an entry for \<open>hash\<close> and the table is the old one with the
  guessed name inserted into \<open>owned_names\<close> under \<open>hash\<close>.  The same call on the
  resulting table returns the same name and leaves the table unchanged, and so does the
  same call after any number of further \<open>GetName\<close> calls, and after any sequence of
  \<open>GetName\<close> and \<open>AddNameReference\<close> calls none of which registers another string
  with the CRC32 \<open>hash\<close>.  (The constant-time part of the invariant is not a property of
  the functional model.)
\<close>

theorem GetName_memoized:
  assumes "GetName t hash index parent = (Some name, t')"
  shows "((t' = t \<and> (names t hash = Some name \<or>
             (names t hash = None \<and> owned_names t hash = Some name))) \<or>
          (names t hash = None \<and> owned_names t hash = None \<and>
             t' = t\<lparr>owned_names := (owned_names t)(hash \<mapsto> name)\<rparr>)) \<and>
         GetName t' hash index parent = (Some name, t') \<and>
         fst (GetName (GetName_calls t' gs) hash index parent) = Some name \<and>
         (\<not> list_ex (registers_other hash name) calls \<longrightarrow>
            fst (GetName (apply_calls t' calls) hash index parent) = Some name)"
proof -
  have l: "lookup t' hash = Some name" using assms by (rule GetName_Some_lookup)
  have 1: "lookup (GetName_calls t' gs) hash = Some name"
    using l by (rule GetName_calls_keep_lookup)
  have 2: "lookup (apply_calls t' calls) hash = Some name"
    if "\<not> list_ex (registers_other hash name) calls"
    using l that by (rule apply_calls_keep_lookup)
  show ?thesis
    using GetName_Some_cases [OF assms] l 1 2 by (simp add: GetName_lookup)
qed

theorem GetName_memoized_witness:
  "owned_names guessed_Foo_1 (crc32 ''Foo_1'') = Some ''Foo_1'' \<and>
   GetName guessed_Foo_1 (crc32 ''Foo_1'') 1 (crc32 ''FooList'') =
     (Some ''Foo_1'', guessed_Foo_1) \<and>
   fst (GetName (GetName_calls guessed_Foo_1 [(crc32 ''FooList'', 0, 0)])
     (crc32 ''Foo_1'') 1 (crc32 ''FooList'')) = Some ''Foo_1'' \<and>
   fst (GetName
     (apply_calls guessed_Foo_1
        [CallGetName (crc32 ''FooList'') 0 0, CallAddNameReference ''Foo_1'',
         CallAddNameReference ''FooList''])
     (crc32 ''Foo_1'') 1 (crc32 ''FooList'')) = Some ''Foo_1''"
  using GetName_memoized [OF GetName_guessed_Foo_1,
      of "[(crc32 ''FooList'', 0, 0)]"
         "[CallGetName (crc32 ''FooList'') 0 0, CallAddNameReference ''Foo_1'',
           CallAddNameReference ''FooList'']"]
    calls_Foo_1
  by (simp add: guessed_Foo_1_def)

text \<open>
  Counterexample to C4 as stated.  \<open>GetName\<close> guesses \<open>"Vhmonid_1"\<close> for the hash
  \<open>0xB483540E\<close> and inserts it into \<open>owned_names\<close>.  \<open>"Vhmonid2"\<close> has the same CRC32;
  once \<open>AddNameReference\<close> has registered it in \<open>names\<close>, which is looked up first, the
  same call on the same table returns \<open>"Vhmonid2"\<close>.
\<close>

theorem GetName_memoized_counterexample:
  "GetName (table_of ''Vhmonid'') 0xB483540E 1 (crc32 ''Vhmonid'') =
     (Some ''Vhmonid_1'', guessed_Vhmonid_1) \<and>
   fst (GetName (AddNameReference guessed_Vhmonid_1 ''Vhmonid2'')
     0xB483540E 1 (crc32 ''Vhmonid'')) = Some ''Vhmonid2''"
  by (simp add: GetName_Vhmonid_1 GetName_after_AddNameReference)

text \<open>
  Claim C5 (amended).  When neither dictionary has an entry for \<open>hash\<close> and \<open>names\<close>
  resolves the parent hash to \<open>P\<close>, \<open>GetName\<close> returns, after inserting it into
  \<open>owned_names\<close>, the first candidate with the wanted CRC32 in this order: the outer
  loop runs over \<open>i \<in> {index, index + 1}\<close> and the inner loop over the six formats
  \<open>"%s%d", "%s_%d", "%s%02d", "%s_%02d", "%s%03d", "%s_%03d"\<close>.  The specification
  states the two loops the other way round.
\<close>

theorem GetName_candidate_order:
  assumes "names t hash = None" and "owned_names t hash = None"
    and "names t parent = Some P"
    and "first_match hash
           [StrFormat ''%s%d'' [ArgStr P, ArgInt index],
            StrFormat ''%s_%d'' [ArgStr P, ArgInt index],
            StrFormat ''%s%02d'' [ArgStr P, ArgInt index],
            StrFormat ''%s_%02d'' [ArgStr P, ArgInt index],
            StrFormat ''%s%03d'' [ArgStr P, ArgInt index],
            StrFormat ''%s_%03d'' [ArgStr P, ArgInt index],
            StrFormat ''%s%d'' [ArgStr P, ArgInt (index + 1)],
            StrFormat ''%s_%d'' [ArgStr P, ArgInt (index + 1)],
            StrFormat ''%s%02d'' [ArgStr P, ArgInt (index + 1)],
            StrFormat ''%s_%02d'' [ArgStr P, ArgInt (index + 1)],
            StrFormat ''%s%03d'' [ArgStr P, ArgInt (index + 1)],
            StrFormat ''%s_%03d'' [ArgStr P, ArgInt (index + 1)]] = Some c"
  shows "GetName t hash index parent =
           (Some c, t\<lparr>owned_names := (owned_names t)(hash \<mapsto> c)\<rparr>)"
  using assms unfolding candidates_explicit [symmetric] by (rule GetName_first_candidate)

theorem GetName_candidate_order_witness:
  "GetName (table_of ''Vhmonid'') 0xB483540E 1 (crc32 ''Vhmonid'') =
     (Some ''Vhmonid_1'',
      (table_of ''Vhmonid'')\<lparr>owned_names :=
         (owned_names (table_of ''Vhmonid''))(0xB483540E \<mapsto> ''Vhmonid_1'')\<rparr>)"
  by (rule GetName_candidate_order [OF table_of_Vhmonid,
        unfolded candidates_explicit [symmetric], OF match_Vhmonid])

text \<open>
  Counterexample to C5 as stated.  \<open>"Vhmonid2"\<close> and \<open>"Vhmonid_1"\<close> have the same CRC32,
  \<open>0xB483540E\<close>.  With parent name \<open>"Vhmonid"\<close> and \<open>index = 1\<close>, the first match in the
  order of the specification (format \<open>"%s%d"\<close> with \<open>i = index + 1\<close>) is \<open>"Vhmonid2"\<close>;
  the source reaches \<open>"%s_%d"\<close> with \<open>i = index\<close> first and returns \<open>"Vhmonid_1"\<close>.
\<close>

theorem GetName_spec_order_counterexample:
  "first_match 0xB483540E (spec_candidates ''Vhmonid'' 1) = Some ''Vhmonid2'' \<and>
   fst (GetName (table_of ''Vhmonid'') 0xB483540E 1 (crc32 ''Vhmonid'')) = Some ''Vhmonid_1''"
  using GetName_first_candidate [OF table_of_Vhmonid match_Vhmonid]
  by (simp add: spec_match_Vhmonid)

text \<open>
  Claim C10.  The guessing from the parent consults \<open>names\<close> only.  When the parent hash
  has no entry in \<open>names\<close>, although \<open>owned_names\<close> has one (the parent's own name was
  guessed), and the hash itself is in neither dictionary, \<open>GetName\<close> is the scan of
  the numbered names and nothing else.
\<close>

theorem GetName_parent_only_owned:
  assumes "names t parent = None" and "owned_names t parent = Some parent_name"
    and "names t hash = None" and "owned_names t hash = None"
  shows "GetName t hash index parent = last_resort t hash index"
  using assms by (simp add: GetName_def)

theorem GetName_parent_only_owned_witness:
  "GetName \<lparr>names = Map.empty, owned_names = [crc32 ''FooList'' \<mapsto> ''FooList''],
             numbered_names = []\<rparr> (crc32 ''Foo_1'') 1 (crc32 ''FooList'') =
     (None, \<lparr>names = Map.empty, owned_names = [crc32 ''FooList'' \<mapsto> ''FooList''],
             numbered_names = []\<rparr>)"
  using GetName_parent_only_owned
    [of "\<lparr>names = Map.empty, owned_names = [crc32 ''FooList'' \<mapsto> ''FooList''],
          numbered_names = []\<rparr>" "crc32 ''FooList''" "''FooList''" "crc32 ''Foo_1''" 1]
  by (simp add: last_resort_def crc32_FooList crc32_Foo_1)

section \<open>The reader of parameters\<close>

subsection \<open>Scalars and element lists\<close>

lemma is_int_scalarE:
  assumes "is_int_scalar node" obtains tag v where "node = Val tag (Inr (ScalarU64 v))"
  using assms unfolding is_int_scalar_def
  by (auto split: Node.splits sum.splits Scalar.splits)

lemma is_float_scalarE:
  assumes "is_float_scalar node" obtains tag v where "node = Val tag (Inr (ScalarF64 v))"
  using assms unfolding is_float_scalar_def
  by (auto split: Node.splits sum.splits Scalar.splits)

lemma is_parsed_scalarE:
  assumes "is_parsed_scalar node" obtains tag s where "node = Val tag (Inr s)"
  using assms unfolding is_parsed_scalar_def
  by (auto split: Node.splits sum.splits)

lemma ParseInt_int: "is_int_scalar node \<Longrightarrow> \<exists>v. ParseInt node = Inr v"
  by (erule is_int_scalarE) (simp add: ParseInt_def ParseScalar_def)

lemma ParseFloat_float:
  "is_float_scalar node \<Longrightarrow> \<exists>v. ParseIntOrFloat_f32 narrow node = Inr v"
  by (erule is_float_scalarE) (simp add: ParseIntOrFloat_f32_def ParseScalar_def)

lemma ParseInt_not_InvalidData:
  "is_parsed_scalar node \<Longrightarrow> ParseInt node \<noteq> Inl InvalidDataError"
  by (erule is_parsed_scalarE) (simp add: ParseInt_def ParseScalar_def split: Scalar.splits)

lemma ParseFloat_not_InvalidData:
  "is_parsed_scalar node \<Longrightarrow> ParseIntOrFloat_f32 narrow node \<noteq> Inl InvalidDataError"
  by (erule is_parsed_scalarE)
     (simp add: ParseIntOrFloat_f32_def ParseScalar_def split: Scalar.splits)

lemma map_sum_ParseInt_not_InvalidData:
  "is_parsed_scalar node \<Longrightarrow> map_sum id f (ParseInt node) \<noteq> Inl InvalidDataError"
  using ParseInt_not_InvalidData [of node] by (cases "ParseInt node") auto

lemma parse_each_length: "parse_each parse nodes = Inr vs \<Longrightarrow> length vs = length nodes"
  by (induction nodes arbitrary: vs) (auto split: sum.splits)

lemma parse_each_ok:
  "list_all (\<lambda>c. \<exists>v. parse c = Inr v) nodes \<Longrightarrow> \<exists>vs. parse_each parse nodes = Inr vs"
  by (induction nodes) auto

lemma parse_each_not_InvalidData:
  "list_all (\<lambda>c. parse c \<noteq> Inl InvalidDataError) nodes \<Longrightarrow>
     parse_each parse nodes \<noteq> Inl InvalidDataError"
  by (induction nodes) (auto split: sum.splits)

subsection \<open>Curves\<close>

lemma read_Curve_not_InvalidData:
  assumes "list_all is_parsed_scalar nodes"
  shows "read_Curve narrow nodes \<noteq> Inl InvalidDataError"
proof (cases nodes)
  case Nil
  then show ?thesis by (simp add: read_Curve_def)
next
  case (Cons n1 rest1)
  note c1 = this
  show ?thesis
  proof (cases rest1)
    case Nil
    then show ?thesis using c1 by (simp add: read_Curve_def)
  next
    case (Cons n2 rest)
    have p1: "is_parsed_scalar n1" and p2: "is_parsed_scalar n2"
      and pr: "list_all is_parsed_scalar rest"
      using assms c1 Cons by simp_all
    have fl: "parse_each (ParseIntOrFloat_f32 narrow) rest \<noteq> Inl InvalidDataError"
      by (rule parse_each_not_InvalidData)
         (use pr in \<open>auto simp: list_all_iff ParseFloat_not_InvalidData\<close>)
    show ?thesis
      using map_sum_ParseInt_not_InvalidData [OF p1, of ucast]
        map_sum_ParseInt_not_InvalidData [OF p2, of ucast] fl
      unfolding c1 Cons read_Curve_def ParseIntOrFloat_u32_def
      by (auto split: sum.splits)
  qed
qed

lemma ReadSequenceForCurve_not_InvalidData:
  "list_all is_parsed_scalar nodes \<Longrightarrow>
     ReadSequenceForCurve narrow N nodes \<noteq> Inl InvalidDataError"
proof (induction N arbitrary: nodes)
  case 0
  show ?case by simp
next
  case (Suc N)
  have t: "list_all is_parsed_scalar (take 32 nodes)"
    and d: "list_all is_parsed_scalar (drop 32 nodes)"
    using Suc.prems by (auto simp: list_all_iff dest: in_set_takeD in_set_dropD)
  show ?case
    using read_Curve_not_InvalidData [OF t, of narrow] Suc.IH [OF d]
    by (auto split: sum.splits)
qed

lemma ReadSequenceForCurve_length:
  "ReadSequenceForCurve narrow N nodes = Inr cs \<Longrightarrow> length cs = N"
  by (induction N arbitrary: nodes cs) (auto split: sum.splits)

lemma curve_elements_iff:
  "curve_elements nodes =
     (\<forall>i < length nodes. if i mod 32 < 2 then is_int_scalar (nodes ! i)
                          else is_float_scalar (nodes ! i))"
  by (auto simp: curve_elements_def list_all_iff)

lemma read_Curve_ok:
  assumes len: "length nodes = 32"
    and i0: "is_int_scalar (nodes ! 0)" and i1: "is_int_scalar (nodes ! 1)"
    and fl: "\<And>i. 2 \<le> i \<Longrightarrow> i < 32 \<Longrightarrow> is_float_scalar (nodes ! i)"
  shows "\<exists>c. read_Curve narrow nodes = Inr c"
proof -
  obtain n1 n2 rest where n: "nodes = n1 # n2 # rest"
    using len by (cases nodes; cases "tl nodes") auto
  have lr: "length rest = 30" using len n by simp
  have "list_all (\<lambda>c. \<exists>v. ParseIntOrFloat_f32 narrow c = Inr v) rest"
    unfolding list_all_iff
  proof
    fix c assume "c \<in> set rest"
    then obtain j where j: "j < length rest" "c = rest ! j" by (auto simp: in_set_conv_nth)
    have "is_float_scalar (nodes ! (j + 2))" using j lr by (intro fl) auto
    then have "is_float_scalar c" using j n by simp
    then show "\<exists>v. ParseIntOrFloat_f32 narrow c = Inr v" by (rule ParseFloat_float)
  qed
  then obtain fs where fs: "parse_each (ParseIntOrFloat_f32 narrow) rest = Inr fs"
    using parse_each_ok by blast
  obtain v1 where v1: "ParseInt n1 = Inr v1" using i0 n ParseInt_int by fastforce
  obtain v2 where v2: "ParseInt n2 = Inr v2" using i1 n ParseInt_int by fastforce
  show ?thesis
    by (simp add: n read_Curve_def ParseIntOrFloat_u32_def v1 v2 fs)
qed

lemma ReadSequenceForCurve_ok:
  "length nodes = 32 * N \<Longrightarrow> curve_elements nodes \<Longrightarrow>
     \<exists>cs. ReadSequenceForCurve narrow N nodes = Inr cs"
proof (induction N arbitrary: nodes)
  case 0
  show ?case by simp
next
  case (Suc N)
  have el: "\<And>i. i < length nodes \<Longrightarrow>
      (if i mod 32 < 2 then is_int_scalar (nodes ! i) else is_float_scalar (nodes ! i))"
    using Suc.prems(2) by (simp add: curve_elements_iff)
  have len: "32 \<le> length nodes" using Suc.prems(1) by simp
  have "\<exists>c. read_Curve narrow (take 32 nodes) = Inr c"
  proof (rule read_Curve_ok)
    show "length (take 32 nodes) = 32" using len by simp
    have "0 < length nodes" and "1 < length nodes" using len by auto
    from el [OF this(1)] el [OF this(2)]
    show "is_int_scalar (take 32 nodes ! 0)" and "is_int_scalar (take 32 nodes ! 1)"
      by simp_all
    show "is_float_scalar (take 32 nodes ! i)" if "2 \<le> i" "i < 32" for i
      using el [of i] len that by simp
  qed
  then obtain c where c: "read_Curve narrow (take 32 nodes) = Inr c" ..
  have "curve_elements (drop 32 nodes)"
    unfolding curve_elements_iff
  proof (intro allI impI)
    fix i assume "i < length (drop 32 nodes)"
    then have "32 + i < length nodes" by simp
    from el [OF this] have "if i mod 32 < 2 then is_int_scalar (nodes ! (32 + i))
        else is_float_scalar (nodes ! (32 + i))" by simp
    moreover have "drop 32 nodes ! i = nodes ! (32 + i)" using len by simp
    ultimately show "if i mod 32 < 2 then is_int_scalar (drop 32 nodes ! i)
        else is_float_scalar (drop 32 nodes ! i)" by (simp only:)
  qed
  moreover have "length (drop 32 nodes) = 32 * N" using Suc.prems(1) by simp
  ultimately obtain cs where "ReadSequenceForCurve narrow N (drop 32 nodes) = Inr cs"
    using Suc.IH by blast
  then show ?case using c by simp
qed

lemma read_Parameter_curve:
  "read_Parameter narrow (Seq ''!curve'' children) =
     map_sum id Some
       (if length children = 32 then
          map_sum id ParamCurve1 (ReadSequenceForCurve narrow 1 children)
        else if length children = 64 then
          map_sum id ParamCurve2 (ReadSequenceForCurve narrow 2 children)
        else if length children = 96 then
          map_sum id ParamCurve3 (ReadSequenceForCurve narrow 3 children)
        else if length children = 128 then
          map_sum id ParamCurve4 (ReadSequenceForCurve narrow 4 children)
        else Inl InvalidDataError)"
  by (simp add: read_Parameter_def del: ReadSequenceForCurve.simps)

lemma map_sum_Inr_iff: "map_sum id f x = Inr y \<longleftrightarrow> (\<exists>z. x = Inr z \<and> y = f z)"
  by (cases x) auto

lemma map_sum_Inl_iff: "map_sum id f x = Inl e \<longleftrightarrow> x = Inl e"
  by (cases x) auto

lemma read_curve_cases:
  "(length children \<notin> {32, 64, 96, 128} \<longrightarrow>
      read_Parameter narrow (Seq ''!curve'' children) = Inl InvalidDataError) \<and>
   (\<forall>v. read_Parameter narrow (Seq ''!curve'' children) = Inr (Some v) \<longrightarrow>
      (\<exists>K. K \<in> {1, 2, 3, 4} \<and> length children = 32 * K \<and>
           GetType v = curve_type K \<and> length (curves_of v) = K)) \<and>
   (\<forall>K. K \<in> {1, 2, 3, 4} \<and> length children = 32 * K \<and> curve_elements children \<longrightarrow>
      (\<exists>v. read_Parameter narrow (Seq ''!curve'' children) = Inr (Some v) \<and>
           GetType v = curve_type K \<and> length (curves_of v) = K))"
proof (intro conjI allI impI)
  assume "length children \<notin> {32, 64, 96, 128}"
  then show "read_Parameter narrow (Seq ''!curve'' children) = Inl InvalidDataError"
    unfolding read_Parameter_curve by simp
next
  fix v assume r: "read_Parameter narrow (Seq ''!curve'' children) = Inr (Some v)"
  consider "length children = 32" | "length children = 64" | "length children = 96"
    | "length children = 128" | "length children \<notin> {32, 64, 96, 128}" by auto
  then show "\<exists>K. K \<in> {1, 2, 3, 4} \<and> length children = 32 * K \<and>
           GetType v = curve_type K \<and> length (curves_of v) = K"
  proof cases
    case 1
    with r obtain cs where "ReadSequenceForCurve narrow 1 children = Inr cs" "v = ParamCurve1 cs"
      unfolding read_Parameter_curve by (auto simp: map_sum_Inr_iff simp del: ReadSequenceForCurve.simps)
    then show ?thesis using 1 ReadSequenceForCurve_length [of narrow 1 children cs]
      by (intro exI [of _ 1]) (simp add: curve_type_def del: ReadSequenceForCurve.simps)
  next
    case 2
    with r obtain cs where "ReadSequenceForCurve narrow 2 children = Inr cs" "v = ParamCurve2 cs"
      unfolding read_Parameter_curve by (auto simp: map_sum_Inr_iff simp del: ReadSequenceForCurve.simps)
    then show ?thesis using 2 ReadSequenceForCurve_length [of narrow 2 children cs]
      by (intro exI [of _ 2]) (simp add: curve_type_def del: ReadSequenceForCurve.simps)
  next
    case 3
    with r obtain cs where "ReadSequenceForCurve narrow 3 children = Inr cs" "v = ParamCurve3 cs"
      unfolding read_Parameter_curve by (auto simp: map_sum_Inr_iff simp del: ReadSequenceForCurve.simps)
    then show ?thesis using 3 ReadSequenceForCurve_length [of narrow 3 children cs]
      by (intro exI [of _ 3]) (simp add: curve_type_def del: ReadSequenceForCurve.simps)
  next
    case 4
    with r obtain cs where "ReadSequenceForCurve narrow 4 children = Inr cs" "v = ParamCurve4 cs"
      unfolding read_Parameter_curve by (auto simp: map_sum_Inr_iff simp del: ReadSequenceForCurve.simps)
    then show ?thesis using 4 ReadSequenceForCurve_length [of narrow 4 children cs]
      by (intro exI [of _ 4]) (simp add: curve_type_def del: ReadSequenceForCurve.simps)
  next
    case 5
    with r show ?thesis unfolding read_Parameter_curve by simp
  qed
next
  fix K assume "K \<in> {1, 2, 3, 4} \<and> length children = 32 * K \<and> curve_elements children"
  then have K: "K \<in> {1, 2, 3, 4}" and len: "length children = 32 * K"
    and el: "curve_elements children" by simp_all
  obtain cs where cs: "ReadSequenceForCurve narrow K children = Inr cs"
    using ReadSequenceForCurve_ok [OF len el] by blast
  have lcs: "length cs = K" using cs by (rule ReadSequenceForCurve_length)
  from K consider "K = 1" | "K = 2" | "K = 3" | "K = 4" by auto
  then show "\<exists>v. read_Parameter narrow (Seq ''!curve'' children) = Inr (Some v) \<and>
           GetType v = curve_type K \<and> length (curves_of v) = K"
    using len cs lcs unfolding read_Parameter_curve
    by cases (simp_all add: curve_type_def del: ReadSequenceForCurve.simps)
qed

subsection \<open>Curves whose elements are of the wrong kind\<close>

lemma ParseInt_Inr_int: "ParseInt node = Inr v \<Longrightarrow> is_int_scalar node"
  by (auto simp: ParseInt_def ParseScalar_def is_int_scalar_def
      split: Node.splits sum.splits Scalar.splits)

lemma ParseFloat_Inr_float: "ParseIntOrFloat_f32 narrow node = Inr v \<Longrightarrow> is_float_scalar node"
  by (auto simp: ParseIntOrFloat_f32_def ParseScalar_def is_float_scalar_def
      split: Node.splits sum.splits Scalar.splits)

lemma parse_each_Inr_all:
  "parse_each parse nodes = Inr vs \<Longrightarrow> c \<in> set nodes \<Longrightarrow> \<exists>v. parse c = Inr v"
  by (induction nodes arbitrary: vs) (auto split: sum.splits)

lemma ParseInt_parsed_cases:
  "is_parsed_scalar node \<Longrightarrow> ParseInt node = Inl BadVariantAccess \<or> (\<exists>v. ParseInt node = Inr v)"
  by (erule is_parsed_scalarE) (simp add: ParseInt_def ParseScalar_def split: Scalar.splits)

lemma ParseFloat_parsed_cases:
  "is_parsed_scalar node \<Longrightarrow>
     ParseIntOrFloat_f32 narrow node = Inl BadVariantAccess \<or>
     (\<exists>v. ParseIntOrFloat_f32 narrow node = Inr v)"
  by (erule is_parsed_scalarE)
     (simp add: ParseIntOrFloat_f32_def ParseScalar_def split: Scalar.splits)

lemma parse_each_parsed_cases:
  "list_all (\<lambda>c. parse c = Inl BadVariantAccess \<or> (\<exists>v. parse c = Inr v)) nodes \<Longrightarrow>
     parse_each parse nodes = Inl BadVariantAccess \<or> (\<exists>vs. parse_each parse nodes = Inr vs)"
  by (induction nodes) (auto split: sum.splits)

lemma read_Curve_parsed_cases:
  assumes "list_all is_parsed_scalar nodes" and "2 \<le> length nodes"
  shows "read_Curve narrow nodes = Inl BadVariantAccess \<or> (\<exists>c. read_Curve narrow nodes = Inr c)"
proof -
  obtain n1 n2 rest where n: "nodes = n1 # n2 # rest"
    using assms(2) by (cases nodes; cases "tl nodes") auto
  have p1: "is_parsed_scalar n1" and p2: "is_parsed_scalar n2"
    and pr: "list_all is_parsed_scalar rest"
    using assms(1) n by simp_all
  have "list_all (\<lambda>c. ParseIntOrFloat_f32 narrow c = Inl BadVariantAccess \<or>
      (\<exists>v. ParseIntOrFloat_f32 narrow c = Inr v)) rest"
    using pr by (auto simp: list_all_iff dest: ParseFloat_parsed_cases)
  then have fl: "parse_each (ParseIntOrFloat_f32 narrow) rest = Inl BadVariantAccess \<or>
      (\<exists>vs. parse_each (ParseIntOrFloat_f32 narrow) rest = Inr vs)"
    by (rule parse_each_parsed_cases)
  show ?thesis
    using ParseInt_parsed_cases [OF p1] ParseInt_parsed_cases [OF p2] fl
    unfolding n read_Curve_def ParseIntOrFloat_u32_def
    by (auto split: sum.splits)
qed

lemma ReadSequenceForCurve_parsed_cases:
  "list_all is_parsed_scalar nodes \<Longrightarrow> length nodes = 32 * N \<Longrightarrow>
     ReadSequenceForCurve narrow N nodes = Inl BadVariantAccess \<or>
     (\<exists>cs. ReadSequenceForCurve narrow N nodes = Inr cs)"
proof (induction N arbitrary: nodes)
  case 0
  show ?case by simp
next
  case (Suc N)
  have t: "list_all is_parsed_scalar (take 32 nodes)"
    and d: "list_all is_parsed_scalar (drop 32 nodes)"
    using Suc.prems(1) by (auto simp: list_all_iff dest: in_set_takeD in_set_dropD)
  have lt: "2 \<le> length (take 32 nodes)" and ld: "length (drop 32 nodes) = 32 * N"
    using Suc.prems(2) by simp_all
  show ?case
    using read_Curve_parsed_cases [OF t lt, of narrow] Suc.IH [OF d ld]
    by (auto split: sum.splits)
qed

lemma read_Curve_Inr_elements:
  assumes "read_Curve narrow nodes = Inr c" and "i < length nodes"
  shows "if i < 2 then is_int_scalar (nodes ! i) else is_float_scalar (nodes ! i)"
proof -
  obtain n1 n2 rest where n: "nodes = n1 # n2 # rest"
    using assms(1) by (cases nodes; cases "tl nodes") (auto simp: read_Curve_def)
  from assms(1) obtain v1 v2 fs where v1: "ParseInt n1 = Inr v1" and v2: "ParseInt n2 = Inr v2"
    and fs: "parse_each (ParseIntOrFloat_f32 narrow) rest = Inr fs"
    unfolding n read_Curve_def ParseIntOrFloat_u32_def
    by (cases "ParseInt n1"; cases "ParseInt n2";
        cases "parse_each (ParseIntOrFloat_f32 narrow) rest") auto
  consider "i = 0" | "i = 1" | "2 \<le> i" by linarith
  then show ?thesis
  proof cases
    case 1
    then show ?thesis using v1 n by (simp add: ParseInt_Inr_int)
  next
    case 2
    then show ?thesis using v2 n by (simp add: ParseInt_Inr_int)
  next
    case 3
    then obtain j where j: "i = Suc (Suc j)" by (metis Suc_le_D numeral_2_eq_2 Suc_le_mono)
    then have "rest ! j \<in> set rest" using assms(2) n by simp
    then obtain v where "ParseIntOrFloat_f32 narrow (rest ! j) = Inr v"
      using parse_each_Inr_all [OF fs] by blast
    then show ?thesis using j n by (simp add: ParseFloat_Inr_float)
  qed
qed

lemma ReadSequenceForCurve_Inr_elements:
  "ReadSequenceForCurve narrow N nodes = Inr cs \<Longrightarrow> length nodes = 32 * N \<Longrightarrow>
     curve_elements nodes"
proof (induction N arbitrary: nodes cs)
  case 0
  then show ?case by (simp add: curve_elements_iff)
next
  case (Suc N)
  from Suc.prems(1) obtain c cs' where c: "read_Curve narrow (take 32 nodes) = Inr c"
    and cs': "ReadSequenceForCurve narrow N (drop 32 nodes) = Inr cs'"
    by (auto split: sum.splits)
  have len: "32 \<le> length nodes" using Suc.prems(2) by simp
  have d: "curve_elements (drop 32 nodes)"
    using Suc.IH [OF cs'] Suc.prems(2) by simp
  show ?case
    unfolding curve_elements_iff
  proof (intro allI impI)
    fix i assume i: "i < length nodes"
    show "if i mod 32 < 2 then is_int_scalar (nodes ! i) else is_float_scalar (nodes ! i)"
    proof (cases "i < 32")
      case True
      then have "i < length (take 32 nodes)" using len by simp
      from read_Curve_Inr_elements [OF c this]
      have "if i < 2 then is_int_scalar (take 32 nodes ! i)
          else is_float_scalar (take 32 nodes ! i)" .
      moreover have "take 32 nodes ! i = nodes ! i" using True by simp
      moreover have "i mod 32 = i" using True by simp
      ultimately show ?thesis by (simp only:)
    next
      case False
      then obtain j where j: "i = 32 + j" by (metis le_add_diff_inverse not_less)
      then have jl: "j < length (drop 32 nodes)" using i by simp
      have "if j mod 32 < 2 then is_int_scalar (drop 32 nodes ! j)
          else is_float_scalar (drop 32 nodes ! j)"
        by (rule d [unfolded curve_elements_iff, rule_format, OF jl])
      moreover have "drop 32 nodes ! j = nodes ! (32 + j)" using len by simp
      moreover have "(32 + j) mod 32 = j mod 32" by simp
      ultimately show ?thesis unfolding j by (simp only:)
    qed
  qed
qed

lemma read_curve_wrong_kinds:
  assumes K: "K \<in> {1, 2, 3, 4}" and len: "length children = 32 * K"
    and ps: "list_all is_parsed_scalar children" and el: "\<not> curve_elements children"
  shows "read_Parameter narrow (Seq ''!curve'' children) = Inl BadVariantAccess"
proof -
  have r: "ReadSequenceForCurve narrow K children = Inl BadVariantAccess"
    using ReadSequenceForCurve_parsed_cases [OF ps len, of narrow]
      ReadSequenceForCurve_Inr_elements [OF _ len, of narrow] el by blast
  from K consider "K = 1" | "K = 2" | "K = 3" | "K = 4" by auto
  then show ?thesis
  proof cases
    case 1
    with r have "ReadSequenceForCurve narrow 1 children = Inl BadVariantAccess" by simp
    then show ?thesis using len 1 unfolding read_Parameter_curve
      by (simp del: ReadSequenceForCurve.simps)
  next
    case 2
    with r have "ReadSequenceForCurve narrow 2 children = Inl BadVariantAccess" by simp
    then show ?thesis using len 2 unfolding read_Parameter_curve
      by (simp del: ReadSequenceForCurve.simps)
  next
    case 3
    with r have "ReadSequenceForCurve narrow 3 children = Inl BadVariantAccess" by simp
    then show ?thesis using len 3 unfolding read_Parameter_curve
      by (simp del: ReadSequenceForCurve.simps)
  next
    case 4
    with r have "ReadSequenceForCurve narrow 4 children = Inl BadVariantAccess" by simp
    then show ?thesis using len 4 unfolding read_Parameter_curve
      by (simp del: ReadSequenceForCurve.simps)
  qed
qed


subsection \<open>Sequences by tag\<close>

lemma struct_InvalidData:
  assumes "list_all is_parsed_scalar children"
  shows "(ReadSequenceForNumericalStruct narrow n children = Inl InvalidDataError) =
           (length children \<noteq> n)"
proof -
  have "parse_each (ParseIntOrFloat_f32 narrow) children \<noteq> Inl InvalidDataError"
    by (rule parse_each_not_InvalidData)
       (use assms in \<open>auto simp: list_all_iff ParseFloat_not_InvalidData\<close>)
  then show ?thesis by (simp add: ReadSequenceForNumericalStruct_def)
qed

lemma buffer_not_InvalidData:
  assumes "list_all is_parsed_scalar children"
  shows "ReadSequenceForBuffer (\<lambda>c. map_sum id f (ParseInt c)) children \<noteq> Inl InvalidDataError"
  unfolding ReadSequenceForBuffer_def
  by (rule parse_each_not_InvalidData)
     (use assms in \<open>auto simp: list_all_iff map_sum_ParseInt_not_InvalidData\<close>)

lemma buffer_f32_not_InvalidData:
  assumes "list_all is_parsed_scalar children"
  shows "ReadSequenceForBuffer (ParseIntOrFloat_f32 narrow) children \<noteq> Inl InvalidDataError"
  unfolding ReadSequenceForBuffer_def
  by (rule parse_each_not_InvalidData)
     (use assms in \<open>auto simp: list_all_iff ParseFloat_not_InvalidData\<close>)

lemma curve_InvalidData:
  assumes "list_all is_parsed_scalar children"
  shows "(read_Parameter narrow (Seq ''!curve'' children) = Inl InvalidDataError) =
           (length children \<notin> {32, 64, 96, 128})"
  using ReadSequenceForCurve_not_InvalidData [OF assms, of narrow]
  unfolding read_Parameter_curve
  by (simp add: map_sum_Inl_iff del: ReadSequenceForCurve.simps)

lemma struct_ok:
  assumes "length children = n" and "list_all is_float_scalar children"
  shows "\<exists>fs. ReadSequenceForNumericalStruct narrow n children = Inr fs"
proof -
  have "list_all (\<lambda>c. \<exists>v. ParseIntOrFloat_f32 narrow c = Inr v) children"
    using assms(2) by (auto simp: list_all_iff ParseFloat_float)
  then show ?thesis
    using assms(1) parse_each_ok by (simp add: ReadSequenceForNumericalStruct_def)
qed

lemma buffer_f32_ok:
  assumes "list_all is_float_scalar children"
  shows "\<exists>vs. ReadSequenceForBuffer (ParseIntOrFloat_f32 narrow) children = Inr vs"
proof -
  have "list_all (\<lambda>c. \<exists>v. ParseIntOrFloat_f32 narrow c = Inr v) children"
    using assms by (auto simp: list_all_iff ParseFloat_float)
  then show ?thesis using parse_each_ok by (simp add: ReadSequenceForBuffer_def)
qed

lemma buffer_int_ok:
  assumes "list_all is_int_scalar children"
  shows "\<exists>vs. ReadSequenceForBuffer (\<lambda>c. map_sum id f (ParseInt c)) children = Inr vs"
proof -
  have "list_all (\<lambda>c. \<exists>v. map_sum id f (ParseInt c) = Inr v) children"
    unfolding list_all_iff
  proof
    fix c assume "c \<in> set children"
    then have "is_int_scalar c" using assms by (simp add: list_all_iff)
    then obtain v where "ParseInt c = Inr v" using ParseInt_int by blast
    then show "\<exists>v. map_sum id f (ParseInt c) = Inr v" by simp
  qed
  then show ?thesis using parse_each_ok by (simp add: ReadSequenceForBuffer_def)
qed

lemma read_Parameter_vec2:
  "read_Parameter narrow (Seq ''!vec2'' children) =
     map_sum id Some (map_sum id (\<lambda>fs. ParamVec2 (Vector2f (fs ! 0) (fs ! 1)))
       (ReadSequenceForNumericalStruct narrow 2 children))"
  by (simp add: read_Parameter_def)

lemma read_Parameter_vec3:
  "read_Parameter narrow (Seq ''!vec3'' children) =
     map_sum id Some (map_sum id (\<lambda>fs. ParamVec3 (Vector3f (fs ! 0) (fs ! 1) (fs ! 2)))
       (ReadSequenceForNumericalStruct narrow 3 children))"
  by (simp add: read_Parameter_def)

lemma read_Parameter_vec4:
  "read_Parameter narrow (Seq ''!vec4'' children) =
     map_sum id Some
       (map_sum id (\<lambda>fs. ParamVec4 (Vector4f (fs ! 0) (fs ! 1) (fs ! 2) (fs ! 3)))
         (ReadSequenceForNumericalStruct narrow 4 children))"
  by (simp add: read_Parameter_def)

lemma read_Parameter_color:
  "read_Parameter narrow (Seq ''!color'' children) =
     map_sum id Some
       (map_sum id (\<lambda>fs. ParamColor (Color4f (fs ! 0) (fs ! 1) (fs ! 2) (fs ! 3)))
         (ReadSequenceForNumericalStruct narrow 4 children))"
  by (simp add: read_Parameter_def)

lemma read_Parameter_quat:
  "read_Parameter narrow (Seq ''!quat'' children) =
     map_sum id Some
       (map_sum id (\<lambda>fs. ParamQuat (Quatf (fs ! 0) (fs ! 1) (fs ! 2) (fs ! 3)))
         (ReadSequenceForNumericalStruct narrow 4 children))"
  by (simp add: read_Parameter_def)

lemma read_Parameter_buffer_int:
  "read_Parameter narrow (Seq ''!buffer_int'' children) =
     map_sum id Some (map_sum id ParamBufferInt
       (ReadSequenceForBuffer (\<lambda>c. map_sum id ucast (ParseInt c)) children))"
  by (simp add: read_Parameter_def ParseIntOrFloat_int_def [abs_def])

lemma read_Parameter_buffer_f32:
  "read_Parameter narrow (Seq ''!buffer_f32'' children) =
     map_sum id Some (map_sum id ParamBufferF32
       (ReadSequenceForBuffer (ParseIntOrFloat_f32 narrow) children))"
  by (simp add: read_Parameter_def)

lemma read_Parameter_buffer_u32:
  "read_Parameter narrow (Seq ''!buffer_u32'' children) =
     map_sum id Some (map_sum id ParamBufferU32
       (ReadSequenceForBuffer (\<lambda>c. map_sum id ucast (ParseInt c)) children))"
  by (simp add: read_Parameter_def ParseIntOrFloat_u32_def [abs_def])

lemma read_Parameter_buffer_binary:
  "read_Parameter narrow (Seq ''!buffer_binary'' children) =
     map_sum id Some (map_sum id ParamBufferBinary
       (ReadSequenceForBuffer (\<lambda>c. map_sum id ucast (ParseInt c)) children))"
  by (simp add: read_Parameter_def ParseIntOrFloat_u8_def [abs_def])

lemma read_Parameter_other_tag:
  "tag \<notin> sequence_tags \<Longrightarrow> read_Parameter narrow (Seq tag children) = Inl InvalidDataError"
  by (simp add: read_Parameter_def sequence_tags_def)

lemmas read_Parameter_tags =
  read_Parameter_vec2 read_Parameter_vec3 read_Parameter_vec4 read_Parameter_color
  read_Parameter_quat read_Parameter_buffer_int read_Parameter_buffer_f32
  read_Parameter_buffer_u32 read_Parameter_buffer_binary

lemma sequence_tags_cases:
  assumes "tag \<in> sequence_tags"
  obtains "tag = ''!vec2''" | "tag = ''!vec3''" | "tag = ''!vec4''" | "tag = ''!color''"
    | "tag = ''!quat''" | "tag = ''!curve''" | "tag = ''!buffer_int''" | "tag = ''!buffer_f32''"
    | "tag = ''!buffer_u32''" | "tag = ''!buffer_binary''"
proof -
  from assms have "tag = ''!vec2'' \<or> tag = ''!vec3'' \<or> tag = ''!vec4'' \<or> tag = ''!color'' \<or>
      tag = ''!quat'' \<or> tag = ''!curve'' \<or> tag = ''!buffer_int'' \<or> tag = ''!buffer_f32'' \<or>
      tag = ''!buffer_u32'' \<or> tag = ''!buffer_binary''"
    by (simp only: sequence_tags_def insert_iff empty_iff simp_thms)
  then show thesis by (elim disjE) (erule that)+
qed

lemma num_fields_simps:
  "num_fields ''!vec2'' = Some 2" "num_fields ''!vec3'' = Some 3" "num_fields ''!vec4'' = Some 4"
  "num_fields ''!color'' = Some 4" "num_fields ''!quat'' = Some 4" "num_fields ''!curve'' = None"
  "num_fields ''!buffer_int'' = None" "num_fields ''!buffer_f32'' = None"
  "num_fields ''!buffer_u32'' = None" "num_fields ''!buffer_binary'' = None"
  by (simp_all add: num_fields_def)

lemma num_fields_other: "tag \<notin> sequence_tags \<Longrightarrow> num_fields tag = None"
  by (auto simp: num_fields_def sequence_tags_def)

lemma read_sequence_InvalidData_iff:
  assumes "list_all is_parsed_scalar children"
  shows "(read_Parameter narrow (Seq tag children) = Inl InvalidDataError) =
     (tag \<notin> sequence_tags \<or>
      (tag = ''!curve'' \<and> length children \<notin> {32, 64, 96, 128}) \<or>
      (\<exists>n. num_fields tag = Some n \<and> length children \<noteq> n))"
proof (cases "tag \<in> sequence_tags")
  case False
  then show ?thesis by (simp add: read_Parameter_other_tag)
next
  case True
  note s = struct_InvalidData [OF assms, of narrow]
    and bi = buffer_not_InvalidData [OF assms]
    and bf = buffer_f32_not_InvalidData [OF assms, of narrow]
  from True show ?thesis
  proof (cases rule: sequence_tags_cases)
    case 6
    then show ?thesis
      using True curve_InvalidData [OF assms, of narrow] by (simp add: num_fields_simps)
  qed (use True in \<open>simp_all add: read_Parameter_tags map_sum_Inl_iff num_fields_simps s bi bf\<close>)
qed

lemma read_sequence_valid:
  assumes "tag \<in> sequence_tags" and "valid_shape tag children"
  shows "\<exists>v. read_Parameter narrow (Seq tag children) = Inr (Some v) \<and>
             GetType v = variant_of_tag tag (length children)"
proof -
  from assms(1) show ?thesis
  proof (cases rule: sequence_tags_cases)
    case 1
    then obtain fs where "ReadSequenceForNumericalStruct narrow 2 children = Inr fs"
      using assms(2) struct_ok [of children 2 narrow]
      by (auto simp: valid_shape_def num_fields_simps)
    then show ?thesis using 1 by (simp add: read_Parameter_tags variant_of_tag_def)
  next
    case 2
    then obtain fs where "ReadSequenceForNumericalStruct narrow 3 children = Inr fs"
      using assms(2) struct_ok [of children 3 narrow]
      by (auto simp: valid_shape_def num_fields_simps)
    then show ?thesis using 2 by (simp add: read_Parameter_tags variant_of_tag_def)
  next
    case 3
    then obtain fs where "ReadSequenceForNumericalStruct narrow 4 children = Inr fs"
      using assms(2) struct_ok [of children 4 narrow]
      by (auto simp: valid_shape_def num_fields_simps)
    then show ?thesis using 3 by (simp add: read_Parameter_tags variant_of_tag_def)
  next
    case 4
    then obtain fs where "ReadSequenceForNumericalStruct narrow 4 children = Inr fs"
      using assms(2) struct_ok [of children 4 narrow]
      by (auto simp: valid_shape_def num_fields_simps)
    then show ?thesis using 4 by (simp add: read_Parameter_tags variant_of_tag_def)
  next
    case 5
    then obtain fs where "ReadSequenceForNumericalStruct narrow 4 children = Inr fs"
      using assms(2) struct_ok [of children 4 narrow]
      by (auto simp: valid_shape_def num_fields_simps)
    then show ?thesis using 5 by (simp add: read_Parameter_tags variant_of_tag_def)
  next
    case 6
    then have len: "length children \<in> {32, 64, 96, 128}" and el: "curve_elements children"
      using assms(2) by (simp_all add: valid_shape_def num_fields_simps)
    define K where "K = length children div 32"
    have K: "K \<in> {1, 2, 3, 4}" and l: "length children = 32 * K"
      using len unfolding K_def by auto
    from read_curve_cases [of children narrow] K l el
    obtain v where "read_Parameter narrow (Seq ''!curve'' children) = Inr (Some v)"
      "GetType v = curve_type K" by blast
    then show ?thesis using 6 by (simp add: variant_of_tag_def K_def)
  next
    case 7
    then obtain vs where "ReadSequenceForBuffer (\<lambda>c. map_sum id ucast (ParseInt c)) children = Inr (vs :: s32 list)"
      using assms(2) buffer_int_ok [of children ucast]
      by (auto simp: valid_shape_def num_fields_simps)
    then show ?thesis using 7 by (simp add: read_Parameter_tags variant_of_tag_def)
  next
    case 8
    then obtain vs where "ReadSequenceForBuffer (ParseIntOrFloat_f32 narrow) children = Inr vs"
      using assms(2) buffer_f32_ok [of children narrow]
      by (auto simp: valid_shape_def num_fields_simps)
    then show ?thesis using 8 by (simp add: read_Parameter_tags variant_of_tag_def)
  next
    case 9
    then obtain vs where "ReadSequenceForBuffer (\<lambda>c. map_sum id ucast (ParseInt c)) children = Inr (vs :: u32 list)"
      using assms(2) buffer_int_ok [of children ucast]
      by (auto simp: valid_shape_def num_fields_simps)
    then show ?thesis using 9 by (simp add: read_Parameter_tags variant_of_tag_def)
  next
    case 10
    then obtain vs where "ReadSequenceForBuffer (\<lambda>c. map_sum id ucast (ParseInt c)) children = Inr (vs :: u8 list)"
      using assms(2) buffer_int_ok [of children ucast]
      by (auto simp: valid_shape_def num_fields_simps)
    then show ?thesis using 10 by (simp add: read_Parameter_tags variant_of_tag_def)
  qed
qed

lemma curve_nodes_2: "length (curve_nodes 2) = 32 * 2" "curve_elements (curve_nodes 2)"
  by code_simp+

lemma curve_nodes_3: "length (curve_nodes 3) = 32 * 3" "curve_elements (curve_nodes 3)"
  by code_simp+

lemma int_nodes_32:
  "length (replicate 32 int_node) = 32 * 1" "list_all is_parsed_scalar (replicate 32 int_node)"
  "\<not> curve_elements (replicate 32 int_node)"
  by code_simp+

section \<open>Claims about the reader\<close>

text \<open>
  Claim C2 (amended).  A sequence tagged \<open>!curve\<close> whose number of elements is not
  \<open>32 * K\<close> for \<open>K \<in> {1, 2, 3, 4}\<close> is rejected with \<open>InvalidData\<close>.  A successful parse
  yields \<open>Curve[K]\<close>, with \<open>K\<close> curves, for the \<open>K\<close> with \<open>32 * K\<close> elements.  With
  \<open>32 * K\<close> elements the parse succeeds when every group of 32 elements consists of two
  integer scalars followed by 30 floating-point scalars; when the elements are scalars
  that the scalar parser accepted but are not of these kinds, it fails with a bad variant
  access.
\<close>

theorem read_curve_by_length:
  "(length children \<notin> {32, 64, 96, 128} \<longrightarrow>
      read_Parameter narrow (Seq ''!curve'' children) = Inl InvalidDataError) \<and>
   (\<forall>v. read_Parameter narrow (Seq ''!curve'' children) = Inr (Some v) \<longrightarrow>
      (\<exists>K. K \<in> {1, 2, 3, 4} \<and> length children = 32 * K \<and>
           GetType v = curve_type K \<and> length (curves_of v) = K)) \<and>
   (\<forall>K. K \<in> {1, 2, 3, 4} \<and> length children = 32 * K \<and> curve_elements children \<longrightarrow>
      (\<exists>v. read_Parameter narrow (Seq ''!curve'' children) = Inr (Some v) \<and>
           GetType v = curve_type K \<and> length (curves_of v) = K)) \<and>
   (\<forall>K. K \<in> {1, 2, 3, 4} \<and> length children = 32 * K \<and>
        list_all is_parsed_scalar children \<and> \<not> curve_elements children \<longrightarrow>
      read_Parameter narrow (Seq ''!curve'' children) = Inl BadVariantAccess)"
  using read_curve_cases [of children narrow] read_curve_wrong_kinds [of _ children narrow]
  by blast

theorem read_curve_by_length_witness:
  "(\<exists>v. read_Parameter (\<lambda>v. 0) (Seq ''!curve'' (curve_nodes 2)) = Inr (Some v) \<and>
        GetType v = Type_Curve2 \<and> length (curves_of v) = 2) \<and>
   (\<exists>v. read_Parameter (\<lambda>v. 0) (Seq ''!curve'' (curve_nodes 3)) = Inr (Some v) \<and>
        GetType v = Type_Curve3 \<and> length (curves_of v) = 3) \<and>
   read_Parameter (\<lambda>v. 0) (Seq ''!curve'' (replicate 48 float_node)) = Inl InvalidDataError \<and>
   read_Parameter (\<lambda>v. 0) (Seq ''!curve'' (replicate 32 int_node)) = Inl BadVariantAccess"
proof -
  have 1: "(2::nat) \<in> {1, 2, 3, 4} \<and> length (curve_nodes 2) = 32 * 2 \<and>
      curve_elements (curve_nodes 2)"
    by (simp add: curve_nodes_2)
  have 2: "(3::nat) \<in> {1, 2, 3, 4} \<and> length (curve_nodes 3) = 32 * 3 \<and>
      curve_elements (curve_nodes 3)"
    by (simp add: curve_nodes_3)
  have 3: "length (replicate 48 float_node) \<notin> {32, 64, 96, 128}" by simp
  have 4: "(1::nat) \<in> {1, 2, 3, 4} \<and> length (replicate 32 int_node) = 32 * 1 \<and>
      list_all is_parsed_scalar (replicate 32 int_node) \<and>
      \<not> curve_elements (replicate 32 int_node)"
    using int_nodes_32 by simp
  show ?thesis
    using read_curve_by_length [of "curve_nodes 2" "\<lambda>v. 0",
        THEN conjunct2, THEN conjunct2, THEN conjunct1, rule_format, OF 1]
      read_curve_by_length [of "curve_nodes 3" "\<lambda>v. 0",
        THEN conjunct2, THEN conjunct2, THEN conjunct1, rule_format, OF 2]
      read_curve_by_length [of "replicate 48 float_node" "\<lambda>v. 0",
        THEN conjunct1, rule_format, OF 3]
      read_curve_by_length [of "replicate 32 int_node" "\<lambda>v. 0",
        THEN conjunct2, THEN conjunct2, THEN conjunct2, rule_format, OF 4]
    by (simp add: curve_type_def)
qed

text \<open>
  Counterexample to C2 as stated.  A \<open>!curve\<close> sequence of 32 floating-point scalars has
  \<open>32 * 1\<close> elements, yet it does not parse as \<open>Curve[1]\<close>: the first element of a curve
  is read with \<^verbatim>\<open>std::get<u64>\<close>, which raises \<^verbatim>\<open>std::bad_variant_access\<close> on a
  double.
\<close>

theorem read_curve_floats_counterexample:
  "length (replicate 32 float_node) = 32 * 1 \<and>
   read_Parameter (\<lambda>v. 0) (Seq ''!curve'' (replicate 32 float_node)) = Inl BadVariantAccess"
  by code_simp

text \<open>
  Claim C6.  The parameter \<open>U32 0xFFFFFFFF\<close> is emitted as the integer 4294967295 with
  the explicit tag \<open>!u\<close> (and any \<open>U32\<close> as its unsigned value with that tag);
  \<open>RecognizeTag\<close> has the scalar parser read a scalar tagged \<open>!u\<close> as an integer, and
  \<open>ScalarToValue\<close> turns an integer tagged \<open>!u\<close> into the \<open>U32\<close> variant, whereas an
  untagged integer becomes \<open>Int\<close>.
\<close>

theorem U32_tag_preserved:
  "emitter (EmitParameter (ParamU32 0xFFFFFFFF) st) =
     emitter st @ [EmitInt 4294967295 ''!u''] \<and>
   emitter (EmitParameter (ParamU32 x) st) = emitter st @ [EmitInt (uint x) ''!u''] \<and>
   RecognizeTag ''!u'' = Some TagInt \<and>
   read_Parameter narrow (Val ''!u'' (Inr (ScalarU64 4294967295))) =
     Inr (Some (ParamU32 0xFFFFFFFF)) \<and>
   read_Parameter narrow (Val ''!u'' (Inr (ScalarU64 v))) = Inr (Some (ParamU32 (ucast v))) \<and>
   read_Parameter narrow (Val [] (Inr (ScalarU64 v))) = Inr (Some (ParamInt (ucast v)))"
  by (simp add: Emit_event_def RecognizeTag_def read_Parameter_def ParseScalar_def
      ScalarToValue_def)

text \<open>
  Claim C7 (amended).  For a sequence node whose elements are scalars that the scalar
  parser accepted, parsing it as a parameter raises \<open>InvalidData\<close> if and only if its tag
  is not one of the ten sequence tags (the untagged case included), or the tag is
  \<open>!curve\<close> and the number of elements is not 32, 64, 96 or 128, or the tag is one of
  \<open>!vec2\<close>, \<open>!vec3\<close>, \<open>!vec4\<close>, \<open>!color\<close>, \<open>!quat\<close> and the number of elements is not
  the number of fields (2, 3, 4, 4, 4).  Every sequence with a listed tag and a valid
  shape parses to the variant of its tag.
\<close>

theorem read_sequence_InvalidData:
  "(list_all is_parsed_scalar children \<longrightarrow>
      (read_Parameter narrow (Seq tag children) = Inl InvalidDataError) =
      (tag \<notin> sequence_tags \<or>
       (tag = ''!curve'' \<and> length children \<notin> {32, 64, 96, 128}) \<or>
       (\<exists>n. num_fields tag = Some n \<and> length children \<noteq> n))) \<and>
   (tag \<in> sequence_tags \<and> valid_shape tag children \<longrightarrow>
      (\<exists>v. read_Parameter narrow (Seq tag children) = Inr (Some v) \<and>
           GetType v = variant_of_tag tag (length children)))"
  using read_sequence_InvalidData_iff [of children narrow tag]
    read_sequence_valid [of tag children narrow]
  by blast

theorem read_sequence_InvalidData_witness:
  "read_Parameter (\<lambda>v. 0) (Seq ''!vec2'' [float_node, float_node]) \<noteq> Inl InvalidDataError \<and>
   (\<exists>v. read_Parameter (\<lambda>v. 0) (Seq ''!vec2'' [float_node, float_node]) = Inr (Some v) \<and>
        GetType v = Type_Vec2)"
proof -
  have 1: "list_all is_parsed_scalar [float_node, float_node]"
    by (simp add: is_parsed_scalar_def float_node_def)
  have 2: "''!vec2'' \<in> sequence_tags \<and> valid_shape ''!vec2'' [float_node, float_node]"
    by (simp add: sequence_tags_def valid_shape_def num_fields_simps is_float_scalar_def
        float_node_def)
  show ?thesis
    using read_sequence_InvalidData [of "[float_node, float_node]" "\<lambda>v. 0" "''!vec2''",
        THEN conjunct1, rule_format, OF 1]
      read_sequence_InvalidData [of "[float_node, float_node]" "\<lambda>v. 0" "''!vec2''",
        THEN conjunct2, rule_format, OF 2]
    by (simp add: sequence_tags_def num_fields_simps variant_of_tag_def)
qed

text \<open>
  Counterexample to C7 as stated.  A \<open>!vec3\<close> sequence of two floats is rejected with
  \<open>InvalidData\<close> (unexpected number of children), although its tag is listed and is not
  \<open>!curve\<close>.
\<close>

theorem read_sequence_vec3_counterexample:
  "read_Parameter (\<lambda>v. 0) (Seq ''!vec3'' [float_node, float_node]) = Inl InvalidDataError \<and>
   \<not> (''!vec3'' \<notin> sequence_tags \<or>
      (''!vec3'' = ''!curve'' \<and> length [float_node, float_node] \<notin> {32, 64, 96, 128}))"
  by (simp add: read_Parameter_vec3 ReadSequenceForNumericalStruct_def sequence_tags_def)

section \<open>The emitter\<close>

subsection \<open>The extra name table\<close>

lemma map_filter_append:
  "List.map_filter f (xs @ ys) = List.map_filter f xs @ List.map_filter f ys"
  by (simp add: List.map_filter_def)

lemma map_filter_concat:
  "List.map_filter f (concat xss) = concat (map (List.map_filter f) xss)"
  by (induction xss) (simp_all add: map_filter_append List.map_filter_simps)

lemma BuildExtraNameTable_params_foldl:
  "BuildExtraNameTable_params ps t =
     foldl AddNameReference t
       (List.map_filter (\<lambda>p. if IsStringType (GetType p) then GetStringView p else None)
          (map snd ps))"
proof (induction ps arbitrary: t)
  case Nil
  show ?case by (simp add: List.map_filter_simps)
next
  case (Cons e ps)
  obtain n p where e: "e = (n, p)" by (cases e)
  show ?case unfolding e
    by (simp add: Cons List.map_filter_simps split: option.splits)
qed

lemma BuildExtraNameTable_objects_foldl:
  "BuildExtraNameTable_objects objs t =
     foldl AddNameReference t
       (List.map_filter (\<lambda>p. if IsStringType (GetType p) then GetStringView p else None)
          (concat (map (\<lambda>e. map snd (params (snd e))) objs)))"
proof (induction objs arbitrary: t)
  case Nil
  show ?case by (simp add: List.map_filter_simps)
next
  case (Cons e objs)
  obtain n obj where e: "e = (n, obj)" by (cases e)
  show ?case unfolding e
    by (simp add: Cons BuildExtraNameTable_params_foldl map_filter_append)
qed

lemma string_values_ParameterList:
  "string_values (ParameterList objs lsts) =
     List.map_filter (\<lambda>p. if IsStringType (GetType p) then GetStringView p else None)
       (concat (map (\<lambda>e. map snd (params (snd e))) objs)) @
     concat (map (\<lambda>e. string_values (snd e)) lsts)"
  by (simp add: string_values_def map_filter_append map_filter_concat comp_def)

lemma BuildExtraNameTable_foldl:
  "BuildExtraNameTable plist t = foldl AddNameReference t (string_values plist)"
  and "BuildExtraNameTable_lists lsts t =
     foldl AddNameReference t (concat (map (\<lambda>e. string_values (snd e)) lsts))"
proof (induction plist t and lsts t rule: BuildExtraNameTable_BuildExtraNameTable_lists.induct)
  case (1 objs lsts t)
  have "BuildExtraNameTable (ParameterList objs lsts) t =
      BuildExtraNameTable_lists lsts (BuildExtraNameTable_objects objs t)" by simp
  also have "\<dots> = foldl AddNameReference (BuildExtraNameTable_objects objs t)
      (concat (map (\<lambda>e. string_values (snd e)) lsts))" by (rule 1)
  also have "\<dots> = foldl AddNameReference t (string_values (ParameterList objs lsts))"
    by (simp add: string_values_ParameterList BuildExtraNameTable_objects_foldl)
  finally show ?case .
next
  case (2 t)
  show ?case by simp
next
  case (3 sub_list_name sub_list rest t)
  have "BuildExtraNameTable_lists ((sub_list_name, sub_list) # rest) t =
      BuildExtraNameTable_lists rest (BuildExtraNameTable sub_list t)" by simp
  also have "\<dots> = foldl AddNameReference (BuildExtraNameTable sub_list t)
      (concat (map (\<lambda>e. string_values (snd e)) rest))" by (rule 3(2))
  also have "\<dots> = foldl AddNameReference t
      (concat (map (\<lambda>e. string_values (snd e)) ((sub_list_name, sub_list) # rest)))"
    by (simp add: 3(1))
  finally show ?case .
qed

lemma AddNameReference_names_mono:
  "names t h \<noteq> None \<Longrightarrow> names (AddNameReference t s) h = names t h"
  by (auto simp: AddNameReference_def split: option.splits)

lemma foldl_AddNameReference_mono:
  "names t h \<noteq> None \<Longrightarrow> names (foldl AddNameReference t xs) h = names t h"
  by (induction xs arbitrary: t) (simp_all add: AddNameReference_names_mono)

lemma AddNameReference_registers:
  "\<exists>s'. names (AddNameReference t s) (crc32 s) = Some s'"
  by (auto simp: AddNameReference_def split: option.splits)

lemma foldl_AddNameReference_registers:
  "s \<in> set xs \<Longrightarrow> names (foldl AddNameReference t xs) (crc32 s) \<noteq> None"
proof (induction xs arbitrary: t)
  case Nil
  then show ?case by simp
next
  case (Cons x xs)
  show ?case
  proof (cases "s = x")
    case True
    obtain s' where "names (AddNameReference t x) (crc32 x) = Some s'"
      using AddNameReference_registers by blast
    then show ?thesis using True
      by (simp add: foldl_AddNameReference_mono)
  next
    case False
    then show ?thesis using Cons by simp
  qed
qed

lemma EmitName_event:
  "emitter (EmitName name index parent_name st) =
     emitter st @ [name_event st name index parent_name]"
proof -
  obtain r1 e1 where g1: "GetName (m_extra_name_table st) name index parent_name = (r1, e1)"
    by (cases "GetName (m_extra_name_table st) name index parent_name")
  obtain r2 e2 where g2: "GetName (default_name_table st) name index parent_name = (r2, e2)"
    by (cases "GetName (default_name_table st) name index parent_name")
  show ?thesis
    by (cases r1; cases r2) (simp_all add: EmitName_def name_event_def Emit_event_def g1 g2)
qed

lemma upt_zip_Cons: "zip [i..<i + Suc n] (x # xs) = (i, x) # zip [Suc i..<Suc i + n] xs"
  by (simp add: upt_conv_Cons)

lemma EmitParameterObject_loop_foldl:
  "EmitParameterObject_loop ps i parent_name st =
     foldl (\<lambda>st (k, name, param). EmitParameter param (EmitName name (int k) parent_name st))
       st (zip [i..<i + length ps] ps)"
proof (induction ps arbitrary: i st)
  case Nil
  show ?case by simp
next
  case (Cons e ps)
  obtain name param where e: "e = (name, param)" by (cases e)
  have z: "zip [i..<i + length (e # ps)] (e # ps) = (i, e) # zip [Suc i..<Suc i + length ps] ps"
    using upt_zip_Cons [of i "length ps" e ps] by simp
  show ?case unfolding z using Cons [of "Suc i"] by (simp add: e)
qed

lemma EmitParameterList_objects_foldl:
  "EmitParameterList_objects objs i parent_name st =
     foldl (\<lambda>st (k, name, object).
              EmitParameterObject object name (EmitName name (int k) parent_name st))
       st (zip [i..<i + length objs] objs)"
proof (induction objs arbitrary: i st)
  case Nil
  show ?case by simp
next
  case (Cons e objs)
  obtain name object where e: "e = (name, object)" by (cases e)
  have z: "zip [i..<i + length (e # objs)] (e # objs) =
      (i, e) # zip [Suc i..<Suc i + length objs] objs"
    using upt_zip_Cons [of i "length objs" e objs] by simp
  show ?case unfolding z using Cons [of "Suc i"] by (simp add: e)
qed

lemma EmitParameterList_lists_foldl:
  "EmitParameterList_lists lsts i parent_name st =
     foldl (\<lambda>st (k, name, list).
              EmitParameterList list name (EmitName name (int k) parent_name st))
       st (zip [i..<i + length lsts] lsts)"
proof (induction lsts arbitrary: i st)
  case Nil
  show ?case by simp
next
  case (Cons e lsts)
  obtain name list where e: "e = (name, list)" by (cases e)
  have z: "zip [i..<i + length (e # lsts)] (e # lsts) =
      (i, e) # zip [Suc i..<Suc i + length lsts] lsts"
    using upt_zip_Cons [of i "length lsts" e lsts] by simp
  show ?case unfolding z using Cons [of "Suc i"] by (simp add: e)
qed

subsection \<open>A concrete document\<close>

lemma crc32_plumless: "crc32 ''plumless'' = 0x4DDB0C25"
  by (simp add: crc32_eval)

lemma crc32_buckeroo: "crc32 ''buckeroo'' = 0x4DDB0C25"
  by (simp add: crc32_eval)

lemma crc32_plumless0: "crc32 ''plumless0'' = 0xBF92D06A"
  by (simp add: crc32_eval)

lemma crc32_param_root: "crc32 ''param_root'' = 0xA4F6CB6C"
  by (simp add: crc32_eval)

lemma StrFormat_plumless0: "StrFormat ''%s%d'' [ArgStr ''plumless'', ArgInt 0] = ''plumless0''"
  by code_simp

lemma GetName_table_of: "GetName (table_of n) (crc32 n) index parent = (Some n, table_of n)"
  by (rule GetName_lookup) (simp add: lookup_def table_of_def)

lemma EmitName_extra_first:
  assumes "fst (GetName (m_extra_name_table st) name index parent_name) = Some name_str"
  shows "EmitName name index parent_name st =
           st\<lparr>m_extra_name_table :=
                snd (GetName (m_extra_name_table st) name index parent_name),
              emitter := emitter st @ [EmitString name_str []]\<rparr>"
  using assms
  by (cases "GetName (m_extra_name_table st) name index parent_name")
     (simp add: EmitName_def Emit_event_def)

lemma Emit_event_rec:
  "Emit_event e \<lparr>m_extra_name_table = x, default_name_table = d, emitter = out\<rparr> =
     \<lparr>m_extra_name_table = x, default_name_table = d, emitter = out @ [e]\<rparr>"
  by (simp add: Emit_event_def)

lemma crc32_param_root0: "crc32 ''param_root0'' = 0xB07B0499"
  by (simp add: crc32_eval)

lemma crc32_plumless_0: "crc32 ''plumless_0'' = 0xBB66B2DF"
  by (simp add: crc32_eval)

lemmas crc32_nested = crc32_plumless crc32_plumless0 crc32_param_root crc32_param_root0
  crc32_plumless_0

lemma StrFormat_nested:
  "StrFormat ''%s%d'' [ArgStr ''param_root'', ArgInt 0] = ''param_root0''"
  "StrFormat ''%s_%d'' [ArgStr ''plumless'', ArgInt 0] = ''plumless_0''"
  by code_simp+

lemma string_values_nested: "string_values (param_root nested_pio) = [''plumless'', ''param_root'']"
  by (simp add: nested_pio_def string_values_def List.map_filter_simps IsStringType_def)

lemma nested_T0: "foldl AddNameReference empty_NameTable [''plumless'', ''param_root''] = nested_T0"
  by (simp add: AddNameReference_def empty_NameTable_def nested_T0_def crc32_nested)

lemma nested_G1:
  "GetName nested_T0 (crc32 ''plumless'') 0 ParamRootKey = (Some ''plumless'', nested_T0)"
  "GetName nested_T1 (crc32 ''param_root'') 1 (crc32 ''plumless'') = (Some ''param_root'', nested_T1)"
  "GetName nested_T2 (crc32 ''plumless'') 1 ParamRootKey = (Some ''plumless'', nested_T2)"
  by (rule GetName_lookup,
      simp add: lookup_def nested_T0_def nested_T1_def nested_T2_def crc32_nested)+

lemma nested_G2:
  "GetName nested_T0 (crc32 ''plumless0'') 0 (crc32 ''plumless'') = (Some ''plumless0'', nested_T1)"
proof -
  have n: "names nested_T0 (crc32 ''plumless0'') = None"
    and o: "owned_names nested_T0 (crc32 ''plumless0'') = None"
    and p: "names nested_T0 (crc32 ''plumless'') = Some ''plumless''"
    by (simp_all add: nested_T0_def crc32_nested)
  have m: "first_match (crc32 ''plumless0'') (candidates ''plumless'' [0, 0 + 1]) =
      Some ''plumless0''"
    unfolding candidates_explicit by (simp add: first_match_def StrFormat_plumless0)
  from GetName_first_candidate [OF n o p m] show ?thesis
    by (simp add: nested_T1_def nested_T0_def)
qed

lemma nested_G4:
  "GetName nested_T1 (crc32 ''param_root0'') 0 ParamRootKey = (Some ''param_root0'', nested_T2)"
proof -
  have n: "names nested_T1 (crc32 ''param_root0'') = None"
    and o: "owned_names nested_T1 (crc32 ''param_root0'') = None"
    and p: "names nested_T1 ParamRootKey = Some ''param_root''"
    by (simp_all add: nested_T1_def nested_T0_def ParamRootKey_def crc32_nested)
  have m: "first_match (crc32 ''param_root0'') (candidates ''param_root'' [0, 0 + 1]) =
      Some ''param_root0''"
    unfolding candidates_explicit by (simp add: first_match_def StrFormat_nested)
  from GetName_first_candidate [OF n o p m] show ?thesis
    by (simp add: nested_T1_def nested_T2_def nested_T0_def)
qed

lemma nested_G5:
  "GetName nested_T2 7 0 (crc32 ''param_root0'') = (None, nested_T2)"
  "GetName empty_NameTable 7 0 (crc32 ''param_root0'') = (None, empty_NameTable)"
  by (simp_all add: GetName_def last_resort_def nested_T2_def nested_T0_def empty_NameTable_def
      crc32_nested)

lemma nested_G7:
  "GetName nested_T2 (crc32 ''plumless_0'') 0 (crc32 ''plumless'') = (Some ''plumless_0'', nested_T3)"
proof -
  have n: "names nested_T2 (crc32 ''plumless_0'') = None"
    and o: "owned_names nested_T2 (crc32 ''plumless_0'') = None"
    and p: "names nested_T2 (crc32 ''plumless'') = Some ''plumless''"
    by (simp_all add: nested_T2_def nested_T0_def crc32_nested)
  have m: "first_match (crc32 ''plumless_0'') (candidates ''plumless'' [0, 0 + 1]) =
      Some ''plumless_0''"
    unfolding candidates_explicit
    by (simp add: first_match_def StrFormat_plumless0 StrFormat_nested crc32_nested)
  from GetName_first_candidate [OF n o p m] show ?thesis
    by (simp add: nested_T3_def nested_T2_def nested_T0_def)
qed

lemma EmitName_Some_rec:
  assumes "GetName x name index parent_name = (Some name_str, x')"
  shows "EmitName name index parent_name
           \<lparr>m_extra_name_table = x, default_name_table = d, emitter = out\<rparr> =
         \<lparr>m_extra_name_table = x', default_name_table = d,
           emitter = out @ [EmitString name_str []]\<rparr>"
  using assms by (simp add: EmitName_def Emit_event_def)

lemma EmitName_None_rec:
  assumes "GetName x name index parent_name = (None, x')"
    and "GetName d name index parent_name = (None, d')"
  shows "EmitName name index parent_name
           \<lparr>m_extra_name_table = x, default_name_table = d, emitter = out\<rparr> =
         \<lparr>m_extra_name_table = x', default_name_table = d',
           emitter = out @ [EmitInt (uint name) []]\<rparr>"
  using assms by (simp add: EmitName_def Emit_event_def)

lemmas nested_EmitName =
  EmitName_Some_rec [OF nested_G1(1)] EmitName_Some_rec [OF nested_G1(2)]
  EmitName_Some_rec [OF nested_G1(3)] EmitName_Some_rec [OF nested_G2]
  EmitName_Some_rec [OF nested_G4] EmitName_Some_rec [OF nested_G7]
  EmitName_None_rec [OF nested_G5]

lemma nested_events:
  "emitter
     (let st = (initial_emitter empty_NameTable)\<lparr>m_extra_name_table :=
                  foldl AddNameReference empty_NameTable
                    (string_values (param_root nested_pio))\<rparr>;
          st = Emit_event StreamStart st;
          st = Emit_event DocumentStart st;
          st = EmitParameterIO nested_pio st;
          st = Emit_event DocumentEnd st
      in Emit_event StreamEnd st) =
   [StreamStart, DocumentStart, MappingStart ''!io'',
    EmitString ''version'' [], EmitInt 0 [], EmitString ''type'' [], EmitString ''xlink'' [],
    EmitString ''param_root'' [], MappingStart ''!list'',
    EmitString ''objects'' [], MappingStart [],
    EmitString ''plumless'' [], MappingStart ''!obj'',
    EmitString ''plumless0'' [], EmitString ''plumless'' [],
    EmitString ''param_root'' [], EmitString ''param_root'' ''!str32'', MappingEnd,
    MappingEnd, EmitString ''lists'' [], MappingStart [],
    EmitString ''param_root0'' [], MappingStart ''!list'',
    EmitString ''objects'' [], MappingStart [],
    EmitInt 7 [], MappingStart ''!obj'', MappingEnd,
    MappingEnd, EmitString ''lists'' [], MappingStart [], MappingEnd, MappingEnd,
    EmitString ''plumless'' [], MappingStart ''!list'',
    EmitString ''objects'' [], MappingStart [],
    EmitString ''plumless_0'' [], MappingStart ''!obj'', MappingEnd,
    MappingEnd, EmitString ''lists'' [], MappingStart [], MappingEnd, MappingEnd,
    MappingEnd, MappingEnd, MappingEnd, DocumentEnd, StreamEnd]"
  unfolding string_values_nested nested_T0
  by (simp add: nested_pio_def initial_emitter_def EmitParameterIO_def
      EmitParameterObject_def Emit_event_rec nested_EmitName)


subsection \<open>What the emitting functions pass to their loops\<close>

lemma EmitParameterObject_foldl:
  "EmitParameterObject pobject parent_name st =
     Emit_event MappingEnd
       (foldl (\<lambda>st (k, name, param). EmitParameter param (EmitName name (int k) parent_name st))
          (Emit_event (MappingStart ''!obj'') st)
          (zip [0..<length (params pobject)] (params pobject)))"
  using EmitParameterObject_loop_foldl [of "params pobject" 0]
  by (simp add: EmitParameterObject_def Let_def)

lemma EmitParameterList_foldl:
  "EmitParameterList (ParameterList objs lsts) parent_name st =
     (let st = Emit_event (MappingStart ''!list'') st;
          st = Emit_event (EmitString ''objects'' []) st;
          st = Emit_event (MappingStart []) st;
          st = foldl (\<lambda>st (k, name, object).
                 EmitParameterObject object name (EmitName name (int k) parent_name st))
                 st (zip [0..<length objs] objs);
          st = Emit_event MappingEnd st;
          st = Emit_event (EmitString ''lists'' []) st;
          st = Emit_event (MappingStart []) st;
          st = foldl (\<lambda>st (k, name, list).
                 EmitParameterList list name (EmitName name (int k) parent_name st))
                 st (zip [0..<length lsts] lsts);
          st = Emit_event MappingEnd st
      in Emit_event MappingEnd st)"
  using EmitParameterList_objects_foldl [of objs 0] EmitParameterList_lists_foldl [of lsts 0]
  by (simp add: Let_def)

section \<open>Claims about the emitter\<close>

text \<open>
  Claim C8.  \<open>BuildExtraNameTable\<close> registers, with \<open>AddNameReference\<close> and in tree
  order, the value of every string-typed parameter of the whole tree, so that each such
  value has an entry under its hash; \<open>Emit\<close> starts emitting only from the table so
  built.  A key is emitted through \<open>EmitName\<close>, which appends the recovered string when
  \<open>GetName\<close> succeeds (on the extra table, else on the default table) and the integer
  hash otherwise.  The three loops call it for the entry at position \<open>k\<close> (counted from 0
  within the map being iterated) with index \<open>k\<close> and the hash of the enclosing
  structure's name.  \<open>EmitParameterObject\<close> runs its loop from 0 over the parameters
  with the object's parent hash; \<open>EmitParameterList\<close> runs the loop over the objects and
  then the loop over the sub-lists, each from 0 and with the list's parent hash, and
  every object and sub-list is emitted under its own hash; \<open>EmitParameterIO\<close> emits the
  root list under the hash of \<open>"param_root"\<close>, and \<open>ToText\<close> is \<open>Emit\<close> on a fresh
  emitter.
\<close>

theorem ToText_name_resolution:
  "BuildExtraNameTable plist t = foldl AddNameReference t (string_values plist) \<and>
   (\<forall>s \<in> set (string_values plist).
      names (BuildExtraNameTable plist t) (crc32 s) \<noteq> None) \<and>
   Emit pio st =
     (let st = st\<lparr>m_extra_name_table :=
                  foldl AddNameReference empty_NameTable (string_values (param_root pio))\<rparr>;
          st = Emit_event StreamStart st;
          st = Emit_event DocumentStart st;
          st = EmitParameterIO pio st;
          st = Emit_event DocumentEnd st
      in Emit_event StreamEnd st) \<and>
   emitter (EmitName name index parent_name st) =
     emitter st @ [name_event st name index parent_name] \<and>
   EmitParameterObject_loop ps 0 parent_name st =
     foldl (\<lambda>st (k, name, param). EmitParameter param (EmitName name (int k) parent_name st))
       st (zip [0..<length ps] ps) \<and>
   EmitParameterList_objects objs 0 parent_name st =
     foldl (\<lambda>st (k, name, object).
              EmitParameterObject object name (EmitName name (int k) parent_name st))
       st (zip [0..<length objs] objs) \<and>
   EmitParameterList_lists lsts 0 parent_name st =
     foldl (\<lambda>st (k, name, list).
              EmitParameterList list name (EmitName name (int k) parent_name st))
       st (zip [0..<length lsts] lsts) \<and>
   EmitParameterObject pobject parent_name st =
     Emit_event MappingEnd
       (foldl (\<lambda>st (k, name, param). EmitParameter param (EmitName name (int k) parent_name st))
          (Emit_event (MappingStart ''!obj'') st)
          (zip [0..<length (params pobject)] (params pobject))) \<and>
   EmitParameterList (ParameterList objs lsts) parent_name st =
     (let st = Emit_event (MappingStart ''!list'') st;
          st = Emit_event (EmitString ''objects'' []) st;
          st = Emit_event (MappingStart []) st;
          st = foldl (\<lambda>st (k, name, object).
                 EmitParameterObject object name (EmitName name (int k) parent_name st))
                 st (zip [0..<length objs] objs);
          st = Emit_event MappingEnd st;
          st = Emit_event (EmitString ''lists'' []) st;
          st = Emit_event (MappingStart []) st;
          st = foldl (\<lambda>st (k, name, list).
                 EmitParameterList list name (EmitName name (int k) parent_name st))
                 st (zip [0..<length lsts] lsts);
          st = Emit_event MappingEnd st
      in Emit_event MappingEnd st) \<and>
   EmitParameterIO pio st =
     (let st = Emit_event (MappingStart ''!io'') st;
          st = Emit_event (EmitString ''version'' []) st;
          st = Emit_event (EmitInt (uint (version pio)) []) st;
          st = Emit_event (EmitString ''type'' []) st;
          st = Emit_event (EmitString (type pio) []) st;
          st = Emit_event (EmitString ''param_root'' []) st;
          st = EmitParameterList (param_root pio) ParamRootKey st
      in Emit_event MappingEnd st) \<and>
   ToText pio table =
     (emitter (Emit pio (initial_emitter table)),
      default_name_table (Emit pio (initial_emitter table)))"
proof (intro conjI ballI)
  show "BuildExtraNameTable plist t = foldl AddNameReference t (string_values plist)"
    by (rule BuildExtraNameTable_foldl)
  show "names (BuildExtraNameTable plist t) (crc32 s) \<noteq> None"
    if "s \<in> set (string_values plist)" for s
    unfolding BuildExtraNameTable_foldl using that by (rule foldl_AddNameReference_registers)
  show "Emit pio st =
     (let st = st\<lparr>m_extra_name_table :=
                  foldl AddNameReference empty_NameTable (string_values (param_root pio))\<rparr>;
          st = Emit_event StreamStart st;
          st = Emit_event DocumentStart st;
          st = EmitParameterIO pio st;
          st = Emit_event DocumentEnd st
      in Emit_event StreamEnd st)"
    by (simp add: Emit_def BuildExtraNameTable_foldl Let_def)
  show "emitter (EmitName name index parent_name st) =
     emitter st @ [name_event st name index parent_name]"
    by (rule EmitName_event)
  show "EmitParameterObject_loop ps 0 parent_name st =
     foldl (\<lambda>st (k, name, param). EmitParameter param (EmitName name (int k) parent_name st))
       st (zip [0..<length ps] ps)"
    using EmitParameterObject_loop_foldl [of ps 0] by simp
  show "EmitParameterList_objects objs 0 parent_name st =
     foldl (\<lambda>st (k, name, object).
              EmitParameterObject object name (EmitName name (int k) parent_name st))
       st (zip [0..<length objs] objs)"
    using EmitParameterList_objects_foldl [of objs 0] by simp
  show "EmitParameterList_lists lsts 0 parent_name st =
     foldl (\<lambda>st (k, name, list).
              EmitParameterList list name (EmitName name (int k) parent_name st))
       st (zip [0..<length lsts] lsts)"
    using EmitParameterList_lists_foldl [of lsts 0] by simp
  show "EmitParameterObject pobject parent_name st =
     Emit_event MappingEnd
       (foldl (\<lambda>st (k, name, param). EmitParameter param (EmitName name (int k) parent_name st))
          (Emit_event (MappingStart ''!obj'') st)
          (zip [0..<length (params pobject)] (params pobject)))"
    by (rule EmitParameterObject_foldl)
  show "EmitParameterList (ParameterList objs lsts) parent_name st =
     (let st = Emit_event (MappingStart ''!list'') st;
          st = Emit_event (EmitString ''objects'' []) st;
          st = Emit_event (MappingStart []) st;
          st = foldl (\<lambda>st (k, name, object).
                 EmitParameterObject object name (EmitName name (int k) parent_name st))
                 st (zip [0..<length objs] objs);
          st = Emit_event MappingEnd st;
          st = Emit_event (EmitString ''lists'' []) st;
          st = Emit_event (MappingStart []) st;
          st = foldl (\<lambda>st (k, name, list).
                 EmitParameterList list name (EmitName name (int k) parent_name st))
                 st (zip [0..<length lsts] lsts);
          st = Emit_event MappingEnd st
      in Emit_event MappingEnd st)"
    by (rule EmitParameterList_foldl)
  show "EmitParameterIO pio st =
     (let st = Emit_event (MappingStart ''!io'') st;
          st = Emit_event (EmitString ''version'' []) st;
          st = Emit_event (EmitInt (uint (version pio)) []) st;
          st = Emit_event (EmitString ''type'' []) st;
          st = Emit_event (EmitString (type pio) []) st;
          st = Emit_event (EmitString ''param_root'' []) st;
          st = EmitParameterList (param_root pio) ParamRootKey st
      in Emit_event MappingEnd st)"
    by (simp add: EmitParameterIO_def)
  show "ToText pio table =
     (emitter (Emit pio (initial_emitter table)),
      default_name_table (Emit pio (initial_emitter table)))"
    by (simp add: ToText_def Let_def)
qed

theorem ToText_name_resolution_witness:
  "names (BuildExtraNameTable (param_root nested_pio) empty_NameTable) (crc32 ''param_root'') \<noteq>
     None \<and>
   fst (ToText nested_pio empty_NameTable) =
     [StreamStart, DocumentStart, MappingStart ''!io'',
      EmitString ''version'' [], EmitInt 0 [], EmitString ''type'' [], EmitString ''xlink'' [],
      EmitString ''param_root'' [], MappingStart ''!list'',
      EmitString ''objects'' [], MappingStart [],
      EmitString ''plumless'' [], MappingStart ''!obj'',
      EmitString ''plumless0'' [], EmitString ''plumless'' [],
      EmitString ''param_root'' [], EmitString ''param_root'' ''!str32'', MappingEnd,
      MappingEnd, EmitString ''lists'' [], MappingStart [],
      EmitString ''param_root0'' [], MappingStart ''!list'',
      EmitString ''objects'' [], MappingStart [],
      EmitInt 7 [], MappingStart ''!obj'', MappingEnd,
      MappingEnd, EmitString ''lists'' [], MappingStart [], MappingEnd, MappingEnd,
      EmitString ''plumless'' [], MappingStart ''!list'',
      EmitString ''objects'' [], MappingStart [],
      EmitString ''plumless_0'' [], MappingStart ''!obj'', MappingEnd,
      MappingEnd, EmitString ''lists'' [], MappingStart [], MappingEnd, MappingEnd,
      MappingEnd, MappingEnd, MappingEnd, DocumentEnd, StreamEnd]"
proof
  have "''param_root'' \<in> set (string_values (param_root nested_pio))"
    by (simp add: string_values_nested)
  with ToText_name_resolution [where plist = "param_root nested_pio" and t = empty_NameTable,
      THEN conjunct2, THEN conjunct1]
  show "names (BuildExtraNameTable (param_root nested_pio) empty_NameTable)
          (crc32 ''param_root'') \<noteq> None"
    by (rule bspec)
next
  note e = ToText_name_resolution [where pio = nested_pio
      and st = "initial_emitter empty_NameTable",
      THEN conjunct2, THEN conjunct2, THEN conjunct1]
  have "fst (ToText nested_pio empty_NameTable) =
      emitter (Emit nested_pio (initial_emitter empty_NameTable))"
    by (simp add: ToText_def Let_def)
  also have "\<dots> =
     [StreamStart, DocumentStart, MappingStart ''!io'',
      EmitString ''version'' [], EmitInt 0 [], EmitString ''type'' [], EmitString ''xlink'' [],
      EmitString ''param_root'' [], MappingStart ''!list'',
      EmitString ''objects'' [], MappingStart [],
      EmitString ''plumless'' [], MappingStart ''!obj'',
      EmitString ''plumless0'' [], EmitString ''plumless'' [],
      EmitString ''param_root'' [], EmitString ''param_root'' ''!str32'', MappingEnd,
      MappingEnd, EmitString ''lists'' [], MappingStart [],
      EmitString ''param_root0'' [], MappingStart ''!list'',
      EmitString ''objects'' [], MappingStart [],
      EmitInt 7 [], MappingStart ''!obj'', MappingEnd,
      MappingEnd, EmitString ''lists'' [], MappingStart [], MappingEnd, MappingEnd,
      EmitString ''plumless'' [], MappingStart ''!list'',
      EmitString ''objects'' [], MappingStart [],
      EmitString ''plumless_0'' [], MappingStart ''!obj'', MappingEnd,
      MappingEnd, EmitString ''lists'' [], MappingStart [], MappingEnd, MappingEnd,
      MappingEnd, MappingEnd, MappingEnd, DocumentEnd, StreamEnd]"
    unfolding e by (rule nested_events)
  finally show "fst (ToText nested_pio empty_NameTable) =
     [StreamStart, DocumentStart, MappingStart ''!io'',
      EmitString ''version'' [], EmitInt 0 [], EmitString ''type'' [], EmitString ''xlink'' [],
      EmitString ''param_root'' [], MappingStart ''!list'',
      EmitString ''objects'' [], MappingStart [],
      EmitString ''plumless'' [], MappingStart ''!obj'',
      EmitString ''plumless0'' [], EmitString ''plumless'' [],
      EmitString ''param_root'' [], EmitString ''param_root'' ''!str32'', MappingEnd,
      MappingEnd, EmitString ''lists'' [], MappingStart [],
      EmitString ''param_root0'' [], MappingStart ''!list'',
      EmitString ''objects'' [], MappingStart [],
      EmitInt 7 [], MappingStart ''!obj'', MappingEnd,
      MappingEnd, EmitString ''lists'' [], MappingStart [], MappingEnd, MappingEnd,
      EmitString ''plumless'' [], MappingStart ''!list'',
      EmitString ''objects'' [], MappingStart [],
      EmitString ''plumless_0'' [], MappingStart ''!obj'', MappingEnd,
      MappingEnd, EmitString ''lists'' [], MappingStart [], MappingEnd, MappingEnd,
      MappingEnd, MappingEnd, MappingEnd, DocumentEnd, StreamEnd]" .
qed

text \<open>
  Claim C9.  \<open>EmitName\<close> consults the extra name table of the document first: when it
  recovers a name, that name is emitted and the default table is neither consulted nor
  changed, whatever name the default table would give for the same hash.
\<close>

theorem EmitName_extra_table_first:
  assumes "fst (GetName (m_extra_name_table st) name index parent_name) = Some name_str"
  shows "EmitName name index parent_name st =
           st\<lparr>m_extra_name_table :=
                snd (GetName (m_extra_name_table st) name index parent_name),
              emitter := emitter st @ [EmitString name_str []]\<rparr>"
  using assms by (rule EmitName_extra_first)

theorem EmitName_extra_table_first_witness:
  "fst (GetName (table_of ''buckeroo'') (crc32 ''buckeroo'') 0 ParamRootKey) = Some ''buckeroo'' \<and>
   fst (GetName (table_of ''plumless'') (crc32 ''buckeroo'') 0 ParamRootKey) = Some ''plumless'' \<and>
   emitter (EmitName (crc32 ''buckeroo'') 0 ParamRootKey
      \<lparr>m_extra_name_table = table_of ''plumless'',
        default_name_table = table_of ''buckeroo'', emitter = []\<rparr>) =
     [EmitString ''plumless'' []]"
proof -
  have same: "crc32 ''buckeroo'' = crc32 ''plumless''"
    by (simp only: crc32_buckeroo crc32_plumless)
  have h: "fst (GetName (table_of ''plumless'') (crc32 ''buckeroo'') 0 ParamRootKey) =
      Some ''plumless''"
    unfolding same by (simp add: GetName_table_of)
  show ?thesis
    using EmitName_extra_table_first [of
        "\<lparr>m_extra_name_table = table_of ''plumless'',
          default_name_table = table_of ''buckeroo'', emitter = []\<rparr>"
        "crc32 ''buckeroo''" 0 ParamRootKey "''plumless''"] h
    by (simp add: GetName_table_of)
qed

end
